theory Spec2Isabelle
  imports Main
begin

section \<open>The browser as an environment\<close>

text \<open>
  The program drives a browser through an automation driver. Every driver call is an
  asynchronous request that either resolves with a value or rejects with an error. The
  model records each request in a trace and takes the answer from a tape of replies, one
  reply per request, in the order the requests are made. A tape that has run out stands
  for a browser that is gone: every later request is rejected.

  Logger calls are not modelled: a logger is assumed to return without throwing and has no
  effect on the browser.
\<close>

datatype thrown = TimeoutError | TargetClosedError | ProtocolError | OtherError string

datatype reply =
    Fails thrown
  | Done
  | Flag bool
  | Text string
  | Handles "nat list"

datatype wait_state = Visible | Hidden

datatype action =
    EnsureDirSync string
  | LaunchPersistentContext string bool
  | ExistsSync string
  | ReadJSON string
  | AddCookies
  | Pages
  | NewPage
  | GrantPermissions
  | StorageState string
  | ContextClose
  | BrowserClose
  | Goto string "string option"
  | WaitForSelector string "wait_state option" "nat option"
  | WaitForTimeout nat
  | IsVisible string
  | IsDisabled string
  | Click string
  | Fill string string
  | Screenshot string
  | QueryAll string
  | QueryWithin nat string
  | InnerText nat
  | OnOtpRequired

record world =
  tape :: "reply list"
  trace :: "action list"

text \<open>
  The errors of the program, one constructor per \<^verbatim>\<open>throw new Error(...)\<close> of the
  source, named after its message; \<open>Driver\<close> is an error of the driver (or of the
  one-time-passcode callback) that the program lets through unchanged.
\<close>

datatype error =
    Driver thrown
  | LaunchFailed
  | UnknownProvider string
  | CredentialsNotProvided
  | ProviderNotInitialized
  | BrowserNotStarted
  | LoginButtonNotFound error
  | EmailPasswordRequired
  | OtpNoCallback
  | FailedToSendPrompt error
  | ResponseTimeout
  | NoAssistantMessages

type_synonym 'a io = "world \<Rightarrow> (error + 'a) \<times> world"

definition return_io :: "'a \<Rightarrow> 'a io" where
  "return_io x = (\<lambda>w. (Inr x, w))"

definition throw_io :: "error \<Rightarrow> 'a io" where
  "throw_io e = (\<lambda>w. (Inl e, w))"

definition bind_io :: "'a io \<Rightarrow> ('a \<Rightarrow> 'b io) \<Rightarrow> 'b io" where
  "bind_io m f = (\<lambda>w. case m w of (Inl e, w') \<Rightarrow> (Inl e, w') | (Inr x, w') \<Rightarrow> f x w')"

definition then_io :: "unit io \<Rightarrow> 'b io \<Rightarrow> 'b io" where
  "then_io m n = bind_io m (\<lambda>_. n)"

definition catch_io :: "'a io \<Rightarrow> (error \<Rightarrow> 'a io) \<Rightarrow> 'a io" where
  "catch_io m h = (\<lambda>w. case m w of (Inl e, w') \<Rightarrow> h e w' | (Inr x, w') \<Rightarrow> (Inr x, w'))"

text \<open>\<^verbatim>\<open>try { ... } catch { }\<close>: the block's error is dropped.\<close>

definition swallow :: "unit io \<Rightarrow> unit io" where
  "swallow m = catch_io m (\<lambda>_. return_io ())"

definition call :: "action \<Rightarrow> world \<Rightarrow> reply \<times> world" where
  "call a w =
     (case tape w of
        [] \<Rightarrow> (Fails TargetClosedError, w\<lparr>trace := trace w @ [a]\<rparr>)
      | r # rs \<Rightarrow> (r, \<lparr>tape = rs, trace = trace w @ [a]\<rparr>))"

text \<open>A request whose value the program does not look at.\<close>

definition void_call :: "action \<Rightarrow> unit io" where
  "void_call a =
     (\<lambda>w. case call a w of
        (Fails e, w') \<Rightarrow> (Inl (Driver e), w')
      | (_, w') \<Rightarrow> (Inr (), w'))"

text \<open>
  Requests with a typed result. The driver's interface is typed; a reply of another shape
  is treated as a rejected request.
\<close>

definition flag_call :: "action \<Rightarrow> bool io" where
  "flag_call a =
     (\<lambda>w. case call a w of
        (Fails e, w') \<Rightarrow> (Inl (Driver e), w')
      | (Flag b, w') \<Rightarrow> (Inr b, w')
      | (_, w') \<Rightarrow> (Inl (Driver ProtocolError), w'))"

definition text_call :: "action \<Rightarrow> string io" where
  "text_call a =
     (\<lambda>w. case call a w of
        (Fails e, w') \<Rightarrow> (Inl (Driver e), w')
      | (Text s, w') \<Rightarrow> (Inr s, w')
      | (_, w') \<Rightarrow> (Inl (Driver ProtocolError), w'))"

definition handles_call :: "action \<Rightarrow> nat list io" where
  "handles_call a =
     (\<lambda>w. case call a w of
        (Fails e, w') \<Rightarrow> (Inl (Driver e), w')
      | (Handles hs, w') \<Rightarrow> (Inr hs, w')
      | (_, w') \<Rightarrow> (Inl (Driver ProtocolError), w'))"

section \<open>Prompt templates\<close>

text \<open>
  \<^verbatim>\<open>String.prototype.indexOf\<close>, \<^verbatim>\<open>includes\<close> and \<^verbatim>\<open>replace\<close> with a string pattern.
  \<^verbatim>\<open>replace\<close> substitutes the first occurrence only, and expands the patterns
  \<^verbatim>\<open>$$\<close>, \<^verbatim>\<open>$&\<close>, \<^verbatim>\<open>$`\<close> and \<^verbatim>\<open>$'\<close> of the replacement text; with a string pattern there
  are no capture groups, so every other \<^verbatim>\<open>$\<close> stands for itself.
\<close>

fun js_indexOf :: "string \<Rightarrow> string \<Rightarrow> nat option" where
  "js_indexOf pat [] = (if pat = [] then Some 0 else None)"
| "js_indexOf pat (c # cs) =
     (if take (length pat) (c # cs) = pat then Some 0
      else map_option Suc (js_indexOf pat cs))"

definition js_includes :: "string \<Rightarrow> string \<Rightarrow> bool" where
  "js_includes s pat = (js_indexOf pat s \<noteq> None)"

fun get_substitution :: "string \<Rightarrow> string \<Rightarrow> string \<Rightarrow> string \<Rightarrow> string" where
  "get_substitution matched preceding following [] = []"
| "get_substitution matched preceding following [c] = [c]"
| "get_substitution matched preceding following (c # d # t) =
     (if c = CHR ''$'' \<and> d = CHR ''$''
        then CHR ''$'' # get_substitution matched preceding following t
      else if c = CHR ''$'' \<and> d = CHR ''&''
        then matched @ get_substitution matched preceding following t
      else if c = CHR ''$'' \<and> d = CHR 0x60
        then preceding @ get_substitution matched preceding following t
      else if c = CHR ''$'' \<and> d = CHR 0x27
        then following @ get_substitution matched preceding following t
      else c # get_substitution matched preceding following (d # t))"

definition js_replace :: "string \<Rightarrow> string \<Rightarrow> string \<Rightarrow> string" where
  "js_replace s pat replacement =
     (case js_indexOf pat s of
        None \<Rightarrow> s
      | Some i \<Rightarrow>
          take i s
          @ get_substitution pat (take i s) (drop (i + length pat) s) replacement
          @ drop (i + length pat) s)"

datatype chain_item = Literal string | Transform "string \<Rightarrow> string"

text \<open>The prompt of one chain element, from the last response (the loop body up to the log line).\<close>

definition render :: "chain_item \<Rightarrow> string \<Rightarrow> string" where
  "render promptItem lastResponse =
     (case promptItem of
        Transform f \<Rightarrow> f lastResponse
      | Literal currentPrompt \<Rightarrow>
          if js_includes currentPrompt ''{}'' then js_replace currentPrompt ''{}'' lastResponse
          else if js_includes currentPrompt ''{{}}'' then js_replace currentPrompt ''{{}}'' lastResponse
          else currentPrompt)"

section \<open>The ChatGPT provider\<close>

record selectors =
  landing_login_btn :: string
  login_google_btn :: string
  email_input :: string
  email_continue_btn :: string
  password_input :: string
  password_continue_btn :: string
  profile_btn :: string
  textarea :: string
  send_btn :: string
  stop_btn :: string
  assistant_msg :: string
  upsell_maybe_later :: string
  temp_chat_continue :: string
  otp_input :: string
  otp_validate :: string

definition DEFAULT_SELECTORS :: selectors where
  \<open>DEFAULT_SELECTORS =
     \<lparr>landing_login_btn = ''[data-testid="login-button"]'',
      login_google_btn = ''button:has-text("Continue with Google")'',
      email_input = ''#email'',
      email_continue_btn = ''button[type="submit"]'',
      password_input = ''input[name="password"]'',
      password_continue_btn = ''button[type="submit"]'',
      profile_btn = ''[data-testid="accounts-profile-button"]'',
      textarea = ''#prompt-textarea'',
      send_btn = ''button[data-testid="send-button"]'',
      stop_btn = ''button[data-testid="stop-button"]'',
      assistant_msg = ''div[data-message-author-role="assistant"]'',
      upsell_maybe_later = ''button:has-text("Maybe later")'',
      temp_chat_continue = ''button:has-text("Continue")'',
      otp_input = ''input[name="code"]'',
      otp_validate = ''button[type="submit"]''\<rparr>\<close>

text \<open>
  \<^verbatim>\<open>{ ...DEFAULT_SELECTORS, ...customSelectors }\<close>: a custom entry replaces the default of
  the same name; custom entries under other names are never read.
\<close>

definition override :: "(string \<rightharpoonup> string) \<Rightarrow> string \<Rightarrow> string \<Rightarrow> string" where
  "override custom name dflt = (case custom name of Some v \<Rightarrow> v | None \<Rightarrow> dflt)"

definition merge_selectors :: "(string \<rightharpoonup> string) \<Rightarrow> selectors" where
  "merge_selectors custom =
     \<lparr>landing_login_btn = override custom ''landing_login_btn'' (landing_login_btn DEFAULT_SELECTORS),
      login_google_btn = override custom ''login_google_btn'' (login_google_btn DEFAULT_SELECTORS),
      email_input = override custom ''email_input'' (email_input DEFAULT_SELECTORS),
      email_continue_btn = override custom ''email_continue_btn'' (email_continue_btn DEFAULT_SELECTORS),
      password_input = override custom ''password_input'' (password_input DEFAULT_SELECTORS),
      password_continue_btn =
        override custom ''password_continue_btn'' (password_continue_btn DEFAULT_SELECTORS),
      profile_btn = override custom ''profile_btn'' (profile_btn DEFAULT_SELECTORS),
      textarea = override custom ''textarea'' (textarea DEFAULT_SELECTORS),
      send_btn = override custom ''send_btn'' (send_btn DEFAULT_SELECTORS),
      stop_btn = override custom ''stop_btn'' (stop_btn DEFAULT_SELECTORS),
      assistant_msg = override custom ''assistant_msg'' (assistant_msg DEFAULT_SELECTORS),
      upsell_maybe_later = override custom ''upsell_maybe_later'' (upsell_maybe_later DEFAULT_SELECTORS),
      temp_chat_continue = override custom ''temp_chat_continue'' (temp_chat_continue DEFAULT_SELECTORS),
      otp_input = override custom ''otp_input'' (otp_input DEFAULT_SELECTORS),
      otp_validate = override custom ''otp_validate'' (otp_validate DEFAULT_SELECTORS)\<rparr>"

text \<open>
  A provider holds its selectors and whether an \<^verbatim>\<open>onOtpRequired\<close> callback was given; the
  callback itself is part of the environment (request \<open>OnOtpRequired\<close>). The page it
  drives is the one page of the world.
\<close>

record provider =
  selectors :: selectors
  onOtpRequired :: bool

definition new_ChatGPTProvider :: "(string \<rightharpoonup> string) option \<Rightarrow> bool \<Rightarrow> provider" where
  "new_ChatGPTProvider customSelectors otp =
     \<lparr>selectors = merge_selectors (case customSelectors of None \<Rightarrow> Map.empty | Some c \<Rightarrow> c),
      onOtpRequired = otp\<rparr>"

definition URL :: string where
  "URL = ''https://chatgpt.com/''"

definition SEL_PROFILE_BTN :: "provider \<Rightarrow> string" where
  "SEL_PROFILE_BTN p = profile_btn (selectors p)"

record credentials =
  email :: "string option"
  password :: "string option"
  login_method :: "string option"

text \<open>JavaScript truthiness of an optional string: \<^verbatim>\<open>undefined\<close> and \<^verbatim>\<open>""\<close> are falsy.\<close>

definition falsy :: "string option \<Rightarrow> bool" where
  "falsy s = (s = None \<or> s = Some [])"

definition handleDialogs :: "provider \<Rightarrow> unit io" where
  \<open>handleDialogs p =
     then_io
       (swallow
          (bind_io (flag_call (IsVisible (upsell_maybe_later (selectors p))))
             (\<lambda>visible.
                if visible then
                  then_io (void_call (Click (upsell_maybe_later (selectors p))))
                    (void_call (WaitForTimeout 500))
                else return_io ())))
       (swallow
          (bind_io (flag_call (IsVisible ''h2:has-text("Temporary Chat")''))
             (\<lambda>visible.
                if visible then
                  then_io (void_call (Click (temp_chat_continue (selectors p))))
                    (void_call (WaitForTimeout 500))
                else return_io ())))\<close>

text \<open>Step 4 of \<^verbatim>\<open>login\<close>: the credential entry of either method (the \<^verbatim>\<open>if\<close> inside the \<^verbatim>\<open>try\<close>).\<close>

definition credential_entry :: "provider \<Rightarrow> string \<Rightarrow> string \<Rightarrow> string option \<Rightarrow> unit io" where
  \<open>credential_entry p em pw method =
     (if method = Some ''google'' then
        then_io (void_call (WaitForSelector (login_google_btn (selectors p)) None None))
       (then_io (void_call (Click (login_google_btn (selectors p))))
       (then_io (void_call (WaitForSelector ''input[type="email"]'' None None))
       (then_io (void_call (Fill ''input[type="email"]'' em))
       (then_io (void_call (Click ''#identifierNext >> button''))
       (then_io (void_call (WaitForSelector ''input[type="password"]'' (Some Visible) None))
       (then_io (void_call (Fill ''input[type="password"]'' pw))
                (void_call (Click ''#passwordNext >> button''))))))))
      else
        then_io (void_call (WaitForSelector (email_input (selectors p)) None None))
       (then_io (void_call (Fill (email_input (selectors p)) em))
       (then_io (void_call (Click (email_continue_btn (selectors p))))
       (then_io (void_call (WaitForSelector (password_input (selectors p)) None None))
       (then_io (void_call (Fill (password_input (selectors p)) pw))
                (void_call (Click (password_continue_btn (selectors p)))))))))\<close>

text \<open>
  The one-time-passcode branch of the polling loop, entered when the passcode input is
  visible. It always leaves the function: by an error or by \<^verbatim>\<open>return true\<close>.
\<close>

definition otp_challenge :: "provider \<Rightarrow> bool io" where
  "otp_challenge p =
     (if \<not> onOtpRequired p then throw_io OtpNoCallback
      else
        bind_io (text_call OnOtpRequired)
          (\<lambda>otpCode.
             then_io (void_call (Fill (otp_input (selectors p)) otpCode))
            (then_io (void_call (Click (otp_validate (selectors p))))
            (then_io (void_call (WaitForSelector (profile_btn (selectors p)) None (Some 30000)))
                     (return_io True)))))"

text \<open>
  The loop \<^verbatim>\<open>for (let i = 0; i < 30; i++)\<close>. The result \<open>Some b\<close> is a \<^verbatim>\<open>return b\<close> inside
  the loop, \<open>None\<close> is the loop running to its end.
\<close>

function result_loop :: "provider \<Rightarrow> nat \<Rightarrow> bool option io" where
  "result_loop p i w =
     (if i < 30 then
        (case flag_call (IsVisible (profile_btn (selectors p))) w of
           (Inl e, w1) \<Rightarrow> (Inl e, w1)
         | (Inr True, w1) \<Rightarrow> (Inr (Some True), w1)
         | (Inr False, w1) \<Rightarrow>
             (case flag_call (IsVisible (otp_input (selectors p))) w1 of
                (Inl e, w2) \<Rightarrow> (Inl e, w2)
              | (Inr True, w2) \<Rightarrow>
                  (case otp_challenge p w2 of
                     (Inl e, w3) \<Rightarrow> (Inl e, w3)
                   | (Inr b, w3) \<Rightarrow> (Inr (Some b), w3))
              | (Inr False, w2) \<Rightarrow>
                  (case void_call (WaitForTimeout 1000) w2 of
                     (Inl e, w3) \<Rightarrow> (Inl e, w3)
                   | (Inr _, w3) \<Rightarrow> result_loop p (i + 1) w3)))
      else (Inr None, w))"
  by pat_completeness auto
termination
  by (relation "measure (\<lambda>(p, i, w). 30 - i)") auto

text \<open>
  The end of the \<^verbatim>\<open>try\<close> block of \<^verbatim>\<open>login\<close>: the polling loop, then, when the loop has
  run to its end, the last wait for the profile button.
\<close>

definition await_login_result :: "provider \<Rightarrow> bool io" where
  "await_login_result p =
     bind_io (result_loop p 0)
       (\<lambda>returned.
          case returned of
            Some b \<Rightarrow> return_io b
          | None \<Rightarrow>
              then_io (void_call (WaitForSelector (profile_btn (selectors p)) None (Some 30000)))
                (return_io True))"

text \<open>The body of the \<^verbatim>\<open>try\<close> block of \<^verbatim>\<open>login\<close>.\<close>

definition login_attempt :: "provider \<Rightarrow> string \<Rightarrow> string \<Rightarrow> string option \<Rightarrow> bool io" where
  "login_attempt p em pw method =
     then_io (credential_entry p em pw method) (await_login_result p)"

text \<open>Step 3 of \<^verbatim>\<open>login\<close>: \<^verbatim>\<open>try { await waitForSelector(...); return true } catch { }\<close>.\<close>

definition already_logged_in :: "provider \<Rightarrow> bool io" where
  "already_logged_in p =
     catch_io
       (then_io (void_call (WaitForSelector (profile_btn (selectors p)) None (Some 3000)))
                (return_io True))
       (\<lambda>_. return_io False)"

text \<open>Steps 4 to the end of \<^verbatim>\<open>login\<close>, from the click on the landing page on.\<close>

definition login_from_landing :: "provider \<Rightarrow> credentials \<Rightarrow> bool io" where
  "login_from_landing p creds =
     then_io
       (catch_io (void_call (Click (landing_login_btn (selectors p))))
          (\<lambda>e. throw_io (LoginButtonNotFound e)))
       (case (email creds, password creds) of
          (Some em, Some pw) \<Rightarrow>
            if em = [] \<or> pw = [] then throw_io EmailPasswordRequired
            else
              catch_io (login_attempt p em pw (login_method creds))
                (\<lambda>e. then_io (void_call (Screenshot ''login_failure_node.png'')) (throw_io e))
        | _ \<Rightarrow> throw_io EmailPasswordRequired)"

definition login :: "provider \<Rightarrow> credentials \<Rightarrow> bool io" where
  "login p creds =
     then_io (void_call (Goto URL None))
    (then_io (handleDialogs p)
    (bind_io (already_logged_in p)
       (\<lambda>logged_in. if logged_in then return_io True else login_from_landing p creds)))"

text \<open>The three stages of \<^verbatim>\<open>sendPrompt\<close> after the dialogs: submission, completion, extraction.\<close>

definition submit_prompt :: "provider \<Rightarrow> string \<Rightarrow> unit io" where
  "submit_prompt p prompt =
     catch_io
       (then_io (void_call (WaitForSelector (textarea (selectors p)) None None))
       (then_io (void_call (Fill (textarea (selectors p)) prompt))
       (then_io (void_call (WaitForSelector (send_btn (selectors p)) None None))
       (then_io
          (bind_io (flag_call (IsDisabled (send_btn (selectors p))))
             (\<lambda>disabled. if disabled then void_call (WaitForTimeout 500) else return_io ()))
          (void_call (Click (send_btn (selectors p))))))))
       (\<lambda>e. throw_io (FailedToSendPrompt e))"

definition await_completion :: "provider \<Rightarrow> unit io" where
  "await_completion p =
     catch_io
       (then_io (void_call (WaitForSelector (stop_btn (selectors p)) None (Some 5000)))
                (void_call (WaitForSelector (stop_btn (selectors p)) (Some Hidden) (Some 120000))))
       (\<lambda>e. bind_io (flag_call (IsVisible (send_btn (selectors p))))
               (\<lambda>visible. if visible then return_io () else throw_io ResponseTimeout))"

text \<open>
  Extraction. Its \<^verbatim>\<open>catch\<close> logs the error and throws it again, so it changes nothing.
\<close>

definition extract_response :: "provider \<Rightarrow> string io" where
  "extract_response p =
     then_io (void_call (WaitForSelector (assistant_msg (selectors p)) None (Some 5000)))
       (bind_io (handles_call (QueryAll (assistant_msg (selectors p))))
          (\<lambda>assistantMsgs.
             if assistantMsgs = [] then throw_io NoAssistantMessages
             else
               bind_io (handles_call (QueryWithin (last assistantMsgs) ''.markdown''))
                 (\<lambda>markdownDiv.
                    case markdownDiv of
                      m # _ \<Rightarrow> text_call (InnerText m)
                    | [] \<Rightarrow> text_call (InnerText (last assistantMsgs)))))"

definition sendPrompt :: "provider \<Rightarrow> string \<Rightarrow> string io" where
  "sendPrompt p prompt =
     then_io (handleDialogs p)
    (then_io (submit_prompt p prompt)
    (then_io (await_completion p)
             (extract_response p)))"

section \<open>The session store\<close>

datatype browser_context = BrowserContext
datatype page = Page
datatype browser = Browser

record browser_manager =
  userDataDir :: string
  bm_context :: "browser_context option"
  bm_page :: "page option"
  bm_browser :: "browser option"

text \<open>
  The constructor computes the profile directory from the platform and the environment;
  the model takes the directory as given.
\<close>

definition new_BrowserManager :: "string \<Rightarrow> browser_manager" where
  "new_BrowserManager dir =
     \<lparr>userDataDir = dir, bm_context = None, bm_page = None, bm_browser = None\<rparr>"

text \<open>\<^verbatim>\<open>fs.existsSync\<close> does not throw: any reply other than \<open>Flag True\<close> reads as false.\<close>

definition exists_call :: "action \<Rightarrow> bool io" where
  "exists_call a =
     (\<lambda>w. case call a w of
        (Flag True, w') \<Rightarrow> (Inr True, w')
      | (_, w') \<Rightarrow> (Inr False, w'))"

text \<open>
  The cookie import of \<^verbatim>\<open>start\<close>. The reply to \<open>ReadJSON\<close> is \<open>Flag True\<close> when the
  file holds a truthy \<^verbatim>\<open>cookies\<close> entry. Every failure of the import is logged and dropped.
\<close>

definition load_session :: "string option \<Rightarrow> unit io" where
  "load_session sessionPath =
     (case sessionPath of
        None \<Rightarrow> return_io ()
      | Some file \<Rightarrow>
          if file = [] then return_io ()
          else
            bind_io (exists_call (ExistsSync file))
              (\<lambda>found.
                 if found then
                   swallow
                     (bind_io (flag_call (ReadJSON file))
                        (\<lambda>cookies. if cookies then void_call AddCookies else return_io ()))
                 else return_io ()))"

text \<open>
  \<^verbatim>\<open>context.pages()\<close> is a synchronous accessor. \<^verbatim>\<open>start\<close> reads it a second time, with no
  \<^verbatim>\<open>await\<close> in between, when the first read has found a page: the second read is a
  request of its own in the trace, and it answers as the first one did (it takes no reply
  from the tape).
\<close>

definition read_again :: "action \<Rightarrow> world \<Rightarrow> world" where
  "read_again a w = w\<lparr>trace := trace w @ [a]\<rparr>"

text \<open>
  \<^verbatim>\<open>start\<close> returns the page, the manager with the fields it has assigned so far, and
  the world.
\<close>

definition start :: "browser_manager \<Rightarrow> bool \<Rightarrow> string option \<Rightarrow> world
    \<Rightarrow> (error + page) \<times> browser_manager \<times> world" where
  "start bm headless sessionPath w =
     (case void_call (EnsureDirSync (userDataDir bm)) w of
        (Inl e, w1) \<Rightarrow> (Inl e, bm, w1)
      | (Inr _, w1) \<Rightarrow>
          (case void_call (LaunchPersistentContext (userDataDir bm) headless) w1 of
             (Inl _, w2) \<Rightarrow> (Inl LaunchFailed, bm, w2)
           | (Inr _, w2) \<Rightarrow>
               (case load_session sessionPath w2 of
                  (Inl e, w3) \<Rightarrow> (Inl e, bm\<lparr>bm_context := Some BrowserContext\<rparr>, w3)
                | (Inr _, w3) \<Rightarrow>
                    (case handles_call Pages w3 of
                       (Inl e, w4) \<Rightarrow> (Inl e, bm\<lparr>bm_context := Some BrowserContext\<rparr>, w4)
                     | (Inr (_ # _), w4) \<Rightarrow>
                         (Inr Page,
                          bm\<lparr>bm_context := Some BrowserContext, bm_page := Some Page\<rparr>,
                          read_again Pages w4)
                     | (Inr [], w4) \<Rightarrow>
                         (case void_call NewPage w4 of
                            (Inl e, w5) \<Rightarrow> (Inl e, bm\<lparr>bm_context := Some BrowserContext\<rparr>, w5)
                          | (Inr _, w5) \<Rightarrow>
                              (Inr Page,
                               bm\<lparr>bm_context := Some BrowserContext, bm_page := Some Page\<rparr>,
                               w5))))))"

definition saveSession :: "browser_manager \<Rightarrow> string \<Rightarrow> unit io" where
  "saveSession bm path =
     (if bm_context bm \<noteq> None then void_call (StorageState path) else return_io ())"

definition stop :: "browser_manager \<Rightarrow> unit io" where
  "stop bm =
     then_io (if bm_context bm \<noteq> None then void_call ContextClose else return_io ())
             (if bm_browser bm \<noteq> None then void_call BrowserClose else return_io ())"

definition isAuthenticated :: "browser_manager \<Rightarrow> string \<Rightarrow> string \<Rightarrow> bool io" where
  "isAuthenticated bm url selector =
     (if bm_page bm = None then throw_io BrowserNotStarted
      else
        catch_io
          (then_io (void_call (Goto url (Some ''domcontentloaded'')))
             (catch_io
                (then_io (void_call (WaitForSelector selector None (Some 5000))) (return_io True))
                (\<lambda>_. return_io False)))
          (\<lambda>e. return_io False))"

section \<open>The orchestrator\<close>

record automator =
  providerName :: string
  headless :: bool
  credentials :: "credentials option"
  sessionPath :: "string option"
  config_selectors :: "(string \<rightharpoonup> string) option"
  config_onOtpRequired :: bool
  browserManager :: "browser_manager option"
  provider :: "provider option"

definition new_Automator ::
  "string \<Rightarrow> bool \<Rightarrow> credentials option \<Rightarrow> string option \<Rightarrow> (string \<rightharpoonup> string) option \<Rightarrow> bool
    \<Rightarrow> automator" where
  "new_Automator prov hl creds path sels otp =
     \<lparr>providerName = prov, headless = hl, credentials = creds, sessionPath = path,
      config_selectors = sels, config_onOtpRequired = otp,
      browserManager = None, provider = None\<rparr>"

text \<open>What \<^verbatim>\<open>init\<close> reads from the process: two environment variables and the profile directory.\<close>

record process_env =
  CHATGPT_EMAIL :: "string option"
  CHATGPT_PASSWORD :: "string option"
  profile_dir :: string

text \<open>\<^verbatim>\<open>a || b\<close> on optional strings.\<close>

definition or_else :: "string option \<Rightarrow> string option \<Rightarrow> string option" where
  "or_else a b = (if falsy a then b else a)"

definition resolve_email :: "automator \<Rightarrow> process_env \<Rightarrow> string option" where
  "resolve_email a env =
     or_else (case credentials a of None \<Rightarrow> None | Some c \<Rightarrow> email c) (CHATGPT_EMAIL env)"

definition resolve_password :: "automator \<Rightarrow> process_env \<Rightarrow> string option" where
  "resolve_password a env =
     or_else (case credentials a of None \<Rightarrow> None | Some c \<Rightarrow> password c) (CHATGPT_PASSWORD env)"

definition resolve_method :: "automator \<Rightarrow> string option" where
  "resolve_method a =
     or_else (case credentials a of None \<Rightarrow> None | Some c \<Rightarrow> login_method c) (Some ''email'')"

text \<open>The branch of \<^verbatim>\<open>init\<close> taken when the session is not authenticated.\<close>

definition auto_login :: "automator \<Rightarrow> process_env \<Rightarrow> browser_manager \<Rightarrow> provider \<Rightarrow> unit io" where
  "auto_login a env bm p =
     (if falsy (resolve_email a env) \<or> falsy (resolve_password a env)
      then throw_io CredentialsNotProvided
      else
        bind_io
          (login p \<lparr>email = resolve_email a env, password = resolve_password a env,
                    login_method = resolve_method a\<rparr>)
          (\<lambda>_. case sessionPath a of
                  Some path \<Rightarrow> if path = [] then return_io () else saveSession bm path
                | None \<Rightarrow> return_io ()))"

definition init :: "automator \<Rightarrow> process_env \<Rightarrow> world \<Rightarrow> (error + unit) \<times> automator \<times> world" where
  "init a env w =
     (case start (new_BrowserManager (profile_dir env)) (headless a) (sessionPath a) w of
        (Inl e, bm, w1) \<Rightarrow> (Inl e, a\<lparr>browserManager := Some bm\<rparr>, w1)
      | (Inr pg, bm, w1) \<Rightarrow>
          (case (if bm_context bm \<noteq> None then void_call GrantPermissions else return_io ()) w1 of
             (Inl e, w2) \<Rightarrow> (Inl e, a\<lparr>browserManager := Some bm\<rparr>, w2)
           | (Inr _, w2) \<Rightarrow>
               if providerName a = ''chatgpt'' then
                 (let p = new_ChatGPTProvider (config_selectors a) (config_onOtpRequired a);
                      a' = a\<lparr>browserManager := Some bm, provider := Some p\<rparr>
                  in case isAuthenticated bm URL (SEL_PROFILE_BTN p) w2 of
                       (Inl e, w3) \<Rightarrow> (Inl e, a', w3)
                     | (Inr True, w3) \<Rightarrow> (Inr (), a', w3)
                     | (Inr False, w3) \<Rightarrow>
                         (case auto_login a env bm p w3 of (r, w4) \<Rightarrow> (r, a', w4)))
               else (Inl (UnknownProvider (providerName a)), a\<lparr>browserManager := Some bm\<rparr>, w2)))"

definition processPrompt :: "automator \<Rightarrow> string \<Rightarrow> string io" where
  "processPrompt a prompt =
     (case provider a of
        None \<Rightarrow> throw_io ProviderNotInitialized
      | Some p \<Rightarrow> sendPrompt p prompt)"

text \<open>The loop of \<^verbatim>\<open>processChain\<close>, with its three variables \<^verbatim>\<open>i\<close>, \<^verbatim>\<open>responses\<close>, \<^verbatim>\<open>lastResponse\<close>.\<close>

function chain_loop :: "automator \<Rightarrow> chain_item list \<Rightarrow> nat \<Rightarrow> string list \<Rightarrow> string
    \<Rightarrow> string list io" where
  "chain_loop a prompts i responses lastResponse w =
     (if i < length prompts then
        (case processPrompt a (render (prompts ! i) lastResponse) w of
           (Inl e, w1) \<Rightarrow> (Inl e, w1)
         | (Inr response, w1) \<Rightarrow> chain_loop a prompts (i + 1) (responses @ [response]) response w1)
      else (Inr responses, w))"
  by pat_completeness auto
termination
  by (relation "measure (\<lambda>(a, prompts, i, responses, lastResponse, w). length prompts - i)") auto

definition processChain :: "automator \<Rightarrow> chain_item list \<Rightarrow> string list io" where
  "processChain a prompts = chain_loop a prompts 0 [] []"

definition close :: "automator \<Rightarrow> unit io" where
  "close a =
     (case browserManager a of
        None \<Rightarrow> return_io ()
      | Some bm \<Rightarrow> stop bm)"

section \<open>Observations on runs\<close>

text \<open>
  \<open>emits P m\<close>: whatever the world, the requests that \<open>m\<close> adds to the trace all
  satisfy \<open>P\<close>, and \<open>m\<close> removes nothing from the trace.
\<close>

definition emits :: "(action \<Rightarrow> bool) \<Rightarrow> 'a io \<Rightarrow> bool" where
  "emits P m \<longleftrightarrow> (\<forall>w. \<exists>d. trace (snd (m w)) = trace w @ d \<and> list_all P d)"

definition is_screenshot :: "action \<Rightarrow> bool" where
  "is_screenshot a = (case a of Screenshot _ \<Rightarrow> True | _ \<Rightarrow> False)"

definition is_goto :: "action \<Rightarrow> bool" where
  "is_goto a = (case a of Goto _ _ \<Rightarrow> True | _ \<Rightarrow> False)"

definition is_failure :: "reply \<Rightarrow> bool" where
  "is_failure r = (case r of Fails _ \<Rightarrow> True | _ \<Rightarrow> False)"

text \<open>\<open>raises Q m\<close>: every error with which \<open>m\<close> fails satisfies \<open>Q\<close>.\<close>

definition raises :: "(error \<Rightarrow> bool) \<Rightarrow> 'a io \<Rightarrow> bool" where
  "raises Q m \<longleftrightarrow> (\<forall>w e w'. m w = (Inl e, w') \<longrightarrow> Q e)"

text \<open>The reply that the \<open>n\<close>-th next request will get.\<close>

definition reply_at :: "world \<Rightarrow> nat \<Rightarrow> reply" where
  "reply_at w n = (if n < length (tape w) then tape w ! n else Fails TargetClosedError)"

text \<open>\<^verbatim>\<open>close\<close> called \<open>n\<close> times in sequence; an error ends the sequence.\<close>

fun close_times :: "nat \<Rightarrow> automator \<Rightarrow> unit io" where
  "close_times 0 a = return_io ()"
| "close_times (Suc n) a = then_io (close a) (close_times n a)"

text \<open>The requests that one \<^verbatim>\<open>close\<close> makes when none of them is rejected.\<close>

definition close_requests :: "automator \<Rightarrow> action list" where
  "close_requests a =
     (case browserManager a of
        None \<Rightarrow> []
      | Some bm \<Rightarrow>
          (if bm_context bm \<noteq> None then [ContextClose] else [])
          @ (if bm_browser bm \<noteq> None then [BrowserClose] else []))"


section \<open>Example runs\<close>

definition default_provider :: provider where
  "default_provider = new_ChatGPTProvider None False"

text \<open>Replies of a landing page: navigation resolves, no dialog shows, no profile button.\<close>

definition landing_replies :: "reply list" where
  "landing_replies = [Done, Flag False, Flag False, Fails TimeoutError]"

definition landing_trace :: "provider \<Rightarrow> action list" where
  \<open>landing_trace p =
     [Goto URL None,
      IsVisible (upsell_maybe_later (selectors p)),
      IsVisible ''h2:has-text("Temporary Chat")'',
      WaitForSelector (profile_btn (selectors p)) None (Some 3000)]\<close>

definition idle_poll_replies :: "reply list" where
  "idle_poll_replies = [Flag False, Flag False, Done]"

definition idle_poll_trace :: "provider \<Rightarrow> action list" where
  "idle_poll_trace p =
     [IsVisible (profile_btn (selectors p)), IsVisible (otp_input (selectors p)),
      WaitForTimeout 1000]"

definition email_entry_trace :: "provider \<Rightarrow> string \<Rightarrow> string \<Rightarrow> action list" where
  "email_entry_trace p em pw =
     [WaitForSelector (email_input (selectors p)) None None,
      Fill (email_input (selectors p)) em,
      Click (email_continue_btn (selectors p)),
      WaitForSelector (password_input (selectors p)) None None,
      Fill (password_input (selectors p)) pw,
      Click (password_continue_btn (selectors p))]"

text \<open>Replies to a submission without dialogs: both dialog checks, then the five steps.\<close>

definition submission_replies :: "reply list" where
  "submission_replies = [Flag False, Flag False, Done, Done, Done, Flag False, Done]"

definition submission_trace :: "provider \<Rightarrow> string \<Rightarrow> action list" where
  \<open>submission_trace p prompt =
     [IsVisible (upsell_maybe_later (selectors p)),
      IsVisible ''h2:has-text("Temporary Chat")'',
      WaitForSelector (textarea (selectors p)) None None,
      Fill (textarea (selectors p)) prompt,
      WaitForSelector (send_btn (selectors p)) None None,
      IsDisabled (send_btn (selectors p)),
      Click (send_btn (selectors p))]\<close>

definition started_manager :: browser_manager where
  "started_manager =
     (new_BrowserManager ''profile'')\<lparr>bm_context := Some BrowserContext, bm_page := Some Page\<rparr>"

definition ready_automator :: automator where
  "ready_automator =
     (new_Automator ''chatgpt'' True None None None False)
       \<lparr>browserManager := Some started_manager, provider := Some default_provider\<rparr>"

definition empty_env :: process_env where
  "empty_env = \<lparr>CHATGPT_EMAIL = None, CHATGPT_PASSWORD = None, profile_dir = ''profile''\<rparr>"

text \<open>
  Replies to a start without a session file: directory, launch, one open page. The open
  pages are read twice.
\<close>

definition start_replies :: "reply list" where
  "start_replies = [Done, Done, Handles [3]]"

definition start_trace :: "action list" where
  "start_trace =
     [EnsureDirSync ''profile'', LaunchPersistentContext ''profile'' True, Pages, Pages]"


text \<open>Replies to one exchange without dialogs: submission, generation, extraction.\<close>

definition exchange :: "string \<Rightarrow> reply list" where
  "exchange answer =
     submission_replies @ [Done, Done, Done, Handles [3], Handles [4], Text answer]"

definition exchange_trace :: "provider \<Rightarrow> string \<Rightarrow> action list" where
  "exchange_trace p prompt =
     submission_trace p prompt
     @ [WaitForSelector (stop_btn (selectors p)) None (Some 5000),
        WaitForSelector (stop_btn (selectors p)) (Some Hidden) (Some 120000),
        WaitForSelector (assistant_msg (selectors p)) None (Some 5000),
        QueryAll (assistant_msg (selectors p)),
        QueryWithin 3 ''.markdown'',
        InnerText 4]"

section \<open>Facts about the combinators\<close>

declare result_loop.simps [simp del]
declare chain_loop.simps [simp del]

lemma bind_io_Inr:
  "bind_io m f w = (Inr y, w') \<longleftrightarrow> (\<exists>x w1. m w = (Inr x, w1) \<and> f x w1 = (Inr y, w'))"
  by (auto simp: bind_io_def split: prod.splits sum.splits)

lemma then_io_Inr:
  "then_io m n w = (Inr y, w') \<longleftrightarrow> (\<exists>w1. m w = (Inr (), w1) \<and> n w1 = (Inr y, w'))"
  by (simp add: then_io_def bind_io_Inr)

lemma catch_io_Inr:
  "catch_io m h w = (Inr y, w') \<longleftrightarrow>
     m w = (Inr y, w') \<or> (\<exists>e w1. m w = (Inl e, w1) \<and> h e w1 = (Inr y, w'))"
  by (auto simp: catch_io_def split: prod.splits sum.splits)

lemma bind_io_Inl:
  "bind_io m f w = (Inl e, w') \<longleftrightarrow>
     m w = (Inl e, w') \<or> (\<exists>x w1. m w = (Inr x, w1) \<and> f x w1 = (Inl e, w'))"
  by (auto simp: bind_io_def split: prod.splits sum.splits)

lemma then_io_Inl:
  "then_io m n w = (Inl e, w') \<longleftrightarrow>
     m w = (Inl e, w') \<or> (\<exists>w1. m w = (Inr (), w1) \<and> n w1 = (Inl e, w'))"
  by (simp add: then_io_def bind_io_Inl)

lemma catch_io_Inl:
  "catch_io m h w = (Inl e, w') \<longleftrightarrow> (\<exists>e0 w1. m w = (Inl e0, w1) \<and> h e0 w1 = (Inl e, w'))"
  by (auto simp: catch_io_def split: prod.splits sum.splits)

lemmas io_defs = return_io_def throw_io_def bind_io_def then_io_def catch_io_def swallow_def
  call_def void_call_def flag_call_def text_call_def handles_call_def

lemma result_loop_unfold:
  "result_loop p i =
     (if i < 30 then
        bind_io (flag_call (IsVisible (profile_btn (selectors p))))
          (\<lambda>authenticated.
             if authenticated then return_io (Some True)
             else
               bind_io (flag_call (IsVisible (otp_input (selectors p))))
                 (\<lambda>otp.
                    if otp then bind_io (otp_challenge p) (\<lambda>b. return_io (Some b))
                    else then_io (void_call (WaitForTimeout 1000)) (result_loop p (i + 1))))
      else return_io None)"
  by (rule ext, subst result_loop.simps)
    (simp add: bind_io_def then_io_def return_io_def split: prod.splits sum.splits bool.splits)

section \<open>The requests of each stage\<close>

lemma emitsD:
  "emits P m \<Longrightarrow> m w = (r, w') \<Longrightarrow> \<exists>d. trace w' = trace w @ d \<and> list_all P d"
  unfolding emits_def by (metis snd_conv)

lemma emits_return: "emits P (return_io x)"
  by (simp add: emits_def return_io_def)

lemma emits_throw: "emits P (throw_io e)"
  by (simp add: emits_def throw_io_def)

lemma trace_call: "trace (snd (call a w)) = trace w @ [a]"
  by (simp add: call_def split: list.splits)

lemma emits_void_call: "P a \<Longrightarrow> emits P (void_call a)"
  unfolding emits_def
proof
  fix w assume "P a"
  have "snd (void_call a w) = snd (call a w)"
    by (simp add: void_call_def split: prod.splits reply.splits)
  with \<open>P a\<close> show "\<exists>d. trace (snd (void_call a w)) = trace w @ d \<and> list_all P d"
    by (simp add: trace_call)
qed

lemma emits_flag_call: "P a \<Longrightarrow> emits P (flag_call a)"
  unfolding emits_def
proof
  fix w assume "P a"
  have "snd (flag_call a w) = snd (call a w)"
    by (simp add: flag_call_def split: prod.splits reply.splits)
  with \<open>P a\<close> show "\<exists>d. trace (snd (flag_call a w)) = trace w @ d \<and> list_all P d"
    by (simp add: trace_call)
qed

lemma emits_text_call: "P a \<Longrightarrow> emits P (text_call a)"
  unfolding emits_def
proof
  fix w assume "P a"
  have "snd (text_call a w) = snd (call a w)"
    by (simp add: text_call_def split: prod.splits reply.splits)
  with \<open>P a\<close> show "\<exists>d. trace (snd (text_call a w)) = trace w @ d \<and> list_all P d"
    by (simp add: trace_call)
qed

lemma emits_handles_call: "P a \<Longrightarrow> emits P (handles_call a)"
  unfolding emits_def
proof
  fix w assume "P a"
  have "snd (handles_call a w) = snd (call a w)"
    by (simp add: handles_call_def split: prod.splits reply.splits)
  with \<open>P a\<close> show "\<exists>d. trace (snd (handles_call a w)) = trace w @ d \<and> list_all P d"
    by (simp add: trace_call)
qed

lemma emits_bind:
  assumes "emits P m" and "\<And>x. emits P (f x)"
  shows "emits P (bind_io m f)"
  unfolding emits_def
proof
  fix w
  obtain r w1 where m: "m w = (r, w1)" by (cases "m w")
  from emitsD [OF assms(1) m] obtain d1 where d1: "trace w1 = trace w @ d1" "list_all P d1"
    by blast
  show "\<exists>d. trace (snd (bind_io m f w)) = trace w @ d \<and> list_all P d"
  proof (cases r)
    case (Inl e)
    with m d1 show ?thesis by (simp add: bind_io_def)
  next
    case (Inr x)
    obtain r2 w2 where f: "f x w1 = (r2, w2)" by (cases "f x w1")
    from emitsD [OF assms(2) f] obtain d2 where "trace w2 = trace w1 @ d2" "list_all P d2"
      by blast
    with m d1 Inr f show ?thesis by (simp add: bind_io_def)
  qed
qed

lemma emits_then: "emits P m \<Longrightarrow> emits P n \<Longrightarrow> emits P (then_io m n)"
  by (simp add: then_io_def emits_bind)

lemma emits_catch:
  assumes "emits P m" and "\<And>e. emits P (h e)"
  shows "emits P (catch_io m h)"
  unfolding emits_def
proof
  fix w
  obtain r w1 where m: "m w = (r, w1)" by (cases "m w")
  from emitsD [OF assms(1) m] obtain d1 where d1: "trace w1 = trace w @ d1" "list_all P d1"
    by blast
  show "\<exists>d. trace (snd (catch_io m h w)) = trace w @ d \<and> list_all P d"
  proof (cases r)
    case (Inr x)
    with m d1 show ?thesis by (simp add: catch_io_def)
  next
    case (Inl e)
    obtain r2 w2 where h: "h e w1 = (r2, w2)" by (cases "h e w1")
    from emitsD [OF assms(2) h] obtain d2 where "trace w2 = trace w1 @ d2" "list_all P d2"
      by blast
    with m d1 Inl h show ?thesis by (simp add: catch_io_def)
  qed
qed

lemma emits_swallow: "emits P m \<Longrightarrow> emits P (swallow m)"
  by (simp add: swallow_def emits_catch emits_return)

lemma emits_if:
  "(c \<Longrightarrow> emits P m) \<Longrightarrow> (\<not> c \<Longrightarrow> emits P n) \<Longrightarrow> emits P (if c then m else n)"
  by simp

lemmas emits_intros = emits_return emits_throw emits_void_call emits_flag_call emits_text_call
  emits_handles_call emits_bind emits_then emits_catch emits_swallow emits_if

lemma emits_handleDialogs:
  assumes "\<And>s. P (IsVisible s)" "\<And>s. P (Click s)" "\<And>n. P (WaitForTimeout n)"
  shows "emits P (handleDialogs p)"
  unfolding handleDialogs_def by (intro emits_intros assms)

lemma emits_credential_entry:
  assumes "\<And>s st t. P (WaitForSelector s st t)" "\<And>s. P (Click s)" "\<And>s x. P (Fill s x)"
  shows "emits P (credential_entry p em pw m)"
  unfolding credential_entry_def by (intro emits_intros assms)

lemma emits_otp_challenge:
  assumes "\<And>s st t. P (WaitForSelector s st t)" "\<And>s. P (Click s)" "\<And>s x. P (Fill s x)"
    "P OnOtpRequired"
  shows "emits P (otp_challenge p)"
  unfolding otp_challenge_def by (intro emits_intros assms)

lemma emits_result_loop:
  assumes "\<And>s st t. P (WaitForSelector s st t)" "\<And>s. P (Click s)" "\<And>s x. P (Fill s x)"
    "P OnOtpRequired" "\<And>s. P (IsVisible s)" "\<And>n. P (WaitForTimeout n)"
  shows "emits P (result_loop p i)"
proof (induction "30 - i" arbitrary: i)
  case 0
  then show ?case by (subst result_loop_unfold) (simp add: emits_return)
next
  case (Suc n)
  then have "n = 30 - (i + 1)" by simp
  then have IH: "emits P (result_loop p (i + 1))" by (rule Suc.hyps)
  show ?case
    by (subst result_loop_unfold) (intro emits_intros assms emits_otp_challenge IH)
qed

lemma emits_login_attempt:
  assumes "\<And>s st t. P (WaitForSelector s st t)" "\<And>s. P (Click s)" "\<And>s x. P (Fill s x)"
    "P OnOtpRequired" "\<And>s. P (IsVisible s)" "\<And>n. P (WaitForTimeout n)"
  shows "emits P (login_attempt p em pw m)"
  unfolding login_attempt_def await_login_result_def
  by (intro emits_intros emits_credential_entry emits_result_loop assms)
     (simp add: emits_intros assms split: option.splits)

section \<open>The errors of each stage\<close>

lemma raisesD: "raises Q m \<Longrightarrow> m w = (Inl e, w') \<Longrightarrow> Q e"
  by (auto simp: raises_def)

lemma raises_return: "raises Q (return_io x)"
  by (simp add: raises_def return_io_def)

lemma raises_throw: "Q e \<Longrightarrow> raises Q (throw_io e)"
  by (simp add: raises_def throw_io_def)

lemma raises_void_call: "(\<And>x. Q (Driver x)) \<Longrightarrow> raises Q (void_call a)"
  by (auto simp: raises_def void_call_def split: prod.splits reply.splits)

lemma raises_flag_call: "(\<And>x. Q (Driver x)) \<Longrightarrow> raises Q (flag_call a)"
  by (auto simp: raises_def flag_call_def split: prod.splits reply.splits)

lemma raises_text_call: "(\<And>x. Q (Driver x)) \<Longrightarrow> raises Q (text_call a)"
  by (auto simp: raises_def text_call_def split: prod.splits reply.splits)

lemma raises_handles_call: "(\<And>x. Q (Driver x)) \<Longrightarrow> raises Q (handles_call a)"
  by (auto simp: raises_def handles_call_def split: prod.splits reply.splits)

lemma raises_bind: "raises Q m \<Longrightarrow> (\<And>x. raises Q (f x)) \<Longrightarrow> raises Q (bind_io m f)"
  unfolding raises_def bind_io_Inl by blast

lemma raises_then: "raises Q m \<Longrightarrow> raises Q n \<Longrightarrow> raises Q (then_io m n)"
  by (simp add: then_io_def raises_bind)

lemma raises_catch: "(\<And>e. raises Q (h e)) \<Longrightarrow> raises Q (catch_io m h)"
  unfolding raises_def catch_io_Inl by blast

lemma raises_if:
  "(c \<Longrightarrow> raises Q m) \<Longrightarrow> (\<not> c \<Longrightarrow> raises Q n) \<Longrightarrow> raises Q (if c then m else n)"
  by simp

lemma raises_case_list:
  "raises Q a \<Longrightarrow> (\<And>y ys. raises Q (f y ys)) \<Longrightarrow> raises Q (case xs of [] \<Rightarrow> a | y # ys \<Rightarrow> f y ys)"
  by (cases xs) simp_all

lemmas raises_intros = raises_return raises_throw raises_void_call raises_flag_call
  raises_text_call raises_handles_call raises_bind raises_then raises_catch raises_if
  raises_case_list

section \<open>The result of login\<close>

lemma otp_challenge_true: "otp_challenge p w = (Inr b, w') \<Longrightarrow> b"
  by (auto simp: otp_challenge_def throw_io_def bind_io_Inr then_io_Inr return_io_def
      split: if_splits)

lemma result_loop_true: "result_loop p i w = (Inr (Some b), w') \<Longrightarrow> b"
proof (induction p i w rule: result_loop.induct)
  case (1 p i w)
  show ?case
  proof (cases "i < 30")
    case False
    with "1.prems" show ?thesis by (simp add: result_loop.simps [of p i w])
  next
    case True
    with "1.prems" "1.IH" show ?thesis
      by (auto simp: result_loop.simps [of p i w]
          split: prod.splits sum.splits bool.splits dest: otp_challenge_true)
  qed
qed

lemma login_attempt_true: "login_attempt p em pw m w = (Inr b, w') \<Longrightarrow> b"
  by (auto simp: login_attempt_def await_login_result_def bind_io_Inr then_io_Inr return_io_def
      split: option.splits dest: result_loop_true)

lemma login_from_landing_true: "login_from_landing p creds w = (Inr b, w') \<Longrightarrow> b"
  by (auto simp: login_from_landing_def then_io_Inr catch_io_Inr throw_io_def
      split: option.splits if_splits dest: login_attempt_true)

lemma login_true: "login p creds w = (Inr b, w') \<Longrightarrow> b"
  by (auto simp: login_def then_io_Inr bind_io_Inr return_io_def
      split: if_splits dest: login_from_landing_true)

text \<open>
  Claim C10. \<^verbatim>\<open>login\<close> never returns \<^verbatim>\<open>false\<close>: in every world, for every provider and
  all credentials, its result is either \<^verbatim>\<open>true\<close> or an error.
\<close>

theorem login_never_returns_false:
  "fst (login p creds w) = Inr True \<or> (\<exists>e. fst (login p creds w) = Inl e)"
proof (cases "login p creds w")
  case (Pair r w')
  show ?thesis
  proof (cases r)
    case (Inl e)
    with Pair show ?thesis by simp
  next
    case (Inr b)
    with Pair have "login p creds w = (Inr b, w')" by simp
    then have b by (rule login_true)
    with Pair Inr show ?thesis by simp
  qed
qed

section \<open>Failures of login and the screenshot\<close>

lemma swallow_ok: "\<exists>w'. swallow m w = (Inr (), w')"
  by (cases "m w") (auto simp: swallow_def catch_io_def return_io_def split: sum.splits)

lemma handleDialogs_ok: "\<exists>w'. handleDialogs p w = (Inr (), w')"
proof -
  obtain m n where hd: "handleDialogs p = then_io (swallow m) (swallow n)"
    unfolding handleDialogs_def by blast
  obtain w1 where "swallow m w = (Inr (), w1)" using swallow_ok by blast
  moreover obtain w2 where "swallow n w1 = (Inr (), w2)" using swallow_ok by blast
  ultimately show ?thesis unfolding hd by (simp add: then_io_def bind_io_def)
qed

lemma already_logged_in_ok: "\<exists>b w'. already_logged_in p w = (Inr b, w')"
  by (auto simp: already_logged_in_def catch_io_def then_io_def bind_io_def return_io_def
      split: prod.splits sum.splits)

lemma void_call_trace: "void_call a w = (r, w') \<Longrightarrow> trace w' = trace w @ [a]"
  using trace_call [of a w] by (auto simp: void_call_def split: prod.splits reply.splits)

lemma emits_already_logged_in:
  assumes "\<And>s st t. P (WaitForSelector s st t)"
  shows "emits P (already_logged_in p)"
  unfolding already_logged_in_def by (intro emits_intros assms)

lemma not_screenshot [simp]:
  "\<not> is_screenshot (WaitForSelector s st t)" "\<not> is_screenshot (Click s)"
  "\<not> is_screenshot (Fill s x)" "\<not> is_screenshot OnOtpRequired" "\<not> is_screenshot (IsVisible s)"
  "\<not> is_screenshot (WaitForTimeout n)" "\<not> is_screenshot (Goto u opt)"
  by (simp_all add: is_screenshot_def)

text \<open>The failures of \<open>login_from_landing\<close>.\<close>

lemma login_from_landing_failure:
  assumes "login_from_landing p creds w = (Inl e, w')"
  shows "((\<exists>x. e = LoginButtonNotFound x) \<and> trace w' = trace w @ [Click (landing_login_btn (selectors p))])
       \<or> (e = EmailPasswordRequired \<and> (falsy (email creds) \<or> falsy (password creds))
            \<and> trace w' = trace w @ [Click (landing_login_btn (selectors p))])
       \<or> (\<not> falsy (email creds) \<and> \<not> falsy (password creds)
            \<and> (\<exists>d. trace w' = trace w @ d @ [Screenshot ''login_failure_node.png'']))"
proof -
  let ?click = "void_call (Click (landing_login_btn (selectors p)))"
  obtain r1 w1 where c: "?click w = (r1, w1)" by (cases "?click w")
  then have t1: "trace w1 = trace w @ [Click (landing_login_btn (selectors p))]"
    by (rule void_call_trace)
  show ?thesis
  proof (cases r1)
    case (Inl x)
    with assms c t1 show ?thesis
      by (auto simp: login_from_landing_def then_io_def bind_io_def catch_io_def throw_io_def)
  next
    case (Inr u)
    show ?thesis
    proof (cases "falsy (email creds) \<or> falsy (password creds)")
      case True
      with assms c t1 Inr show ?thesis
        by (auto simp: login_from_landing_def then_io_def bind_io_def catch_io_def throw_io_def
            falsy_def split: option.splits if_splits)
    next
      case False
      then obtain em pw where creds: "email creds = Some em" "password creds = Some pw"
        "em \<noteq> []" "pw \<noteq> []"
        by (auto simp: falsy_def)
      with assms c Inr have
        "catch_io (login_attempt p em pw (login_method creds))
           (\<lambda>e. then_io (void_call (Screenshot ''login_failure_node.png'')) (throw_io e)) w1
         = (Inl e, w')"
        by (simp add: login_from_landing_def then_io_def bind_io_def catch_io_def)
      then obtain e0 w2 where a: "login_attempt p em pw (login_method creds) w1 = (Inl e0, w2)"
        and h: "then_io (void_call (Screenshot ''login_failure_node.png'')) (throw_io e0) w2
                = (Inl e :: error + bool, w')"
        unfolding catch_io_Inl by blast
      from emitsD [OF emits_login_attempt a, of "\<lambda>_. True"]
      obtain d where d: "trace w2 = trace w1 @ d" by auto
      from h have "trace w' = trace w2 @ [Screenshot ''login_failure_node.png'']"
        by (auto simp: then_io_Inl throw_io_def dest: void_call_trace)
      with d t1 False show ?thesis by simp
    qed
  qed
qed

text \<open>
  Claim C3, as amended. Whenever \<^verbatim>\<open>login\<close> fails, the requests it has made extend the trace
  by some \<open>d\<close> such that: when the email or the password is missing, \<open>d\<close> holds no
  screenshot request, and the failure is \<open>EmailPasswordRequired\<close> unless it is the failure
  of the click on the landing page or of the first navigation (then \<open>d\<close> is that one
  request); and every failure other than these three has the screenshot
  \<^verbatim>\<open>login_failure_node.png\<close> as its last request: these are the failures of the
  \<^verbatim>\<open>try\<close> block (credential entry, polling, one-time passcode, last wait).
\<close>

theorem login_failure_screenshot:
  assumes "login p creds w = (Inl e, w')"
  shows "\<exists>d. trace w' = trace w @ d \<and>
           (falsy (email creds) \<or> falsy (password creds) \<longrightarrow>
              \<not> list_ex is_screenshot d \<and>
              (e = EmailPasswordRequired \<or> (\<exists>x. e = LoginButtonNotFound x) \<or> d = [Goto URL None])) \<and>
           (e \<noteq> EmailPasswordRequired \<and> (\<forall>x. e \<noteq> LoginButtonNotFound x) \<and> d \<noteq> [Goto URL None]
              \<longrightarrow> d \<noteq> [] \<and> last d = Screenshot ''login_failure_node.png'')"
proof -
  let ?goto = "void_call (Goto URL None)"
  obtain r1 w1 where g: "?goto w = (r1, w1)" by (cases "?goto w")
  then have t1: "trace w1 = trace w @ [Goto URL None]" by (rule void_call_trace)
  show ?thesis
  proof (cases r1)
    case (Inl x)
    with assms g have "w' = w1" by (simp add: login_def then_io_def bind_io_def)
    with t1 show ?thesis by (simp add: is_screenshot_def)
  next
    case (Inr u)
    obtain w2 where hd: "handleDialogs p w1 = (Inr (), w2)" using handleDialogs_ok by blast
    obtain b w3 where al: "already_logged_in p w2 = (Inr b, w3)"
      using already_logged_in_ok by blast
    from assms g Inr hd al have b: "\<not> b" and ll: "login_from_landing p creds w3 = (Inl e, w')"
      by (auto simp: login_def then_io_def bind_io_def return_io_def split: if_splits)
    from emitsD [OF emits_handleDialogs hd, of "\<lambda>a. \<not> is_screenshot a"]
    obtain d2 where d2: "trace w2 = trace w1 @ d2" "list_all (\<lambda>a. \<not> is_screenshot a) d2"
      by auto
    from emitsD [OF emits_already_logged_in al, of "\<lambda>a. \<not> is_screenshot a"]
    obtain d3 where d3: "trace w3 = trace w2 @ d3" "list_all (\<lambda>a. \<not> is_screenshot a) d3"
      by auto
    let ?pre = "Goto URL None # d2 @ d3"
    have pre: "trace w3 = trace w @ ?pre" "\<not> list_ex is_screenshot ?pre"
      using t1 d2 d3 by (auto simp: list_ex_iff list_all_iff)
    from login_from_landing_failure [OF ll] consider
        (button) x where "e = LoginButtonNotFound x"
          "trace w' = trace w3 @ [Click (landing_login_btn (selectors p))]"
      | (missing) "e = EmailPasswordRequired"
          "trace w' = trace w3 @ [Click (landing_login_btn (selectors p))]"
      | (guarded) d where "\<not> falsy (email creds)" "\<not> falsy (password creds)"
          "trace w' = trace w3 @ d @ [Screenshot ''login_failure_node.png'']"
      by blast
    then show ?thesis
    proof cases
      case button
      with pre show ?thesis by (auto simp: list_ex_iff)
    next
      case missing
      with pre show ?thesis by (auto simp: list_ex_iff)
    next
      case guarded
      with pre show ?thesis by simp
    qed
  qed
qed


lemmas login_defs = login_def handleDialogs_def already_logged_in_def login_from_landing_def
  login_attempt_def credential_entry_def await_login_result_def

text \<open>
  Claim C3 as stated fails: a \<^verbatim>\<open>login\<close> without a password clicks the landing-page button
  and fails with \<open>EmailPasswordRequired\<close>, and no screenshot is requested.
\<close>

theorem login_missing_password_counterexample:
  "login default_provider \<lparr>email = Some ''user@example.com'', password = None, login_method = None\<rparr>
     \<lparr>tape = landing_replies @ [Done], trace = []\<rparr>
   = (Inl EmailPasswordRequired,
      \<lparr>tape = [],
       trace = landing_trace default_provider
               @ [Click (landing_login_btn (selectors default_provider))]\<rparr>)
   \<and> Screenshot ''login_failure_node.png''
       \<notin> set (landing_trace default_provider
               @ [Click (landing_login_btn (selectors default_provider))])"
  by (simp add: login_defs io_defs landing_replies_def landing_trace_def)

text \<open>
  Two runs of the theorem of claim C3: the one above, and a login whose email field never
  appears, which ends with the screenshot.
\<close>

theorem login_failure_screenshot_witness:
  "login default_provider \<lparr>email = Some ''user@example.com'', password = None, login_method = None\<rparr>
     \<lparr>tape = landing_replies @ [Done], trace = []\<rparr>
   = (Inl EmailPasswordRequired,
      \<lparr>tape = [],
       trace = landing_trace default_provider
               @ [Click (landing_login_btn (selectors default_provider))]\<rparr>)
   \<and> \<not> list_ex is_screenshot
         (landing_trace default_provider @ [Click (landing_login_btn (selectors default_provider))])
   \<and> login default_provider
       \<lparr>email = Some ''user@example.com'', password = Some ''secret'', login_method = None\<rparr>
       \<lparr>tape = landing_replies @ [Done, Fails TimeoutError, Done], trace = []\<rparr>
   = (Inl (Driver TimeoutError),
      \<lparr>tape = [],
       trace = landing_trace default_provider
               @ [Click (landing_login_btn (selectors default_provider)),
                  WaitForSelector (email_input (selectors default_provider)) None None,
                  Screenshot ''login_failure_node.png'']\<rparr>)"
proof -
  let ?p = default_provider
  let ?cA = "\<lparr>email = Some ''user@example.com'', password = None, login_method = None\<rparr>"
  let ?cB = "\<lparr>email = Some ''user@example.com'', password = Some ''secret'', login_method = None\<rparr>"
  let ?wA = "\<lparr>tape = landing_replies @ [Done], trace = []\<rparr>"
  let ?wA' = "\<lparr>tape = [], trace = landing_trace ?p @ [Click (landing_login_btn (selectors ?p))]\<rparr>"
  let ?wB = "\<lparr>tape = landing_replies @ [Done, Fails TimeoutError, Done], trace = []\<rparr>"
  let ?wB' = "\<lparr>tape = [],
       trace = landing_trace ?p
               @ [Click (landing_login_btn (selectors ?p)),
                  WaitForSelector (email_input (selectors ?p)) None None,
                  Screenshot ''login_failure_node.png'']\<rparr>"
  have A: "login ?p ?cA ?wA = (Inl EmailPasswordRequired, ?wA')"
    by (simp add: login_defs io_defs landing_replies_def landing_trace_def)
  have fA: "falsy (email ?cA) \<or> falsy (password ?cA)" by (simp add: falsy_def)
  from login_failure_screenshot [OF A] fA
  have nA: "\<not> list_ex is_screenshot (landing_trace ?p @ [Click (landing_login_btn (selectors ?p))])"
    by auto
  have B: "login ?p ?cB ?wB = (Inl (Driver TimeoutError), ?wB')"
    by (simp add: login_defs io_defs landing_replies_def landing_trace_def)
  from login_failure_screenshot [OF B] A nA B show ?thesis by simp
qed

section \<open>The passcode challenge without a callback\<close>

lemma result_loop_otp_no_callback:
  assumes "\<not> onOtpRequired p"
  shows "i + k < 30 \<Longrightarrow>
         tape w = concat (replicate k idle_poll_replies) @ Flag False # Flag True # rest \<Longrightarrow>
         result_loop p i w =
           (Inl OtpNoCallback,
            \<lparr>tape = rest,
             trace = trace w @ concat (replicate k (idle_poll_trace p))
                     @ [IsVisible (profile_btn (selectors p)), IsVisible (otp_input (selectors p))]\<rparr>)"
proof (induction k arbitrary: i w)
  case 0
  with assms show ?case
    by (subst result_loop.simps) (simp add: io_defs otp_challenge_def)
next
  case (Suc k)
  let ?w' = "\<lparr>tape = concat (replicate k idle_poll_replies) @ Flag False # Flag True # rest,
              trace = trace w @ idle_poll_trace p\<rparr>"
  from Suc.prems have i: "i < 30" "(i + 1) + k < 30" by simp_all
  have step: "result_loop p i w = result_loop p (i + 1) ?w'"
    using Suc.prems(2) i(1)
    by (subst result_loop.simps) (simp add: io_defs idle_poll_replies_def idle_poll_trace_def)
  have "result_loop p (i + 1) ?w' =
          (Inl OtpNoCallback,
            \<lparr>tape = rest,
             trace = trace ?w' @ concat (replicate k (idle_poll_trace p))
                     @ [IsVisible (profile_btn (selectors p)), IsVisible (otp_input (selectors p))]\<rparr>)"
    by (rule Suc.IH [OF i(2)]) simp
  with step show ?case by simp
qed

text \<open>The block that waits for the result of the login: the loop throws in round \<open>k\<close>.\<close>

lemma await_login_result_otp_no_callback:
  assumes "\<not> onOtpRequired p" and "k < 30"
    and "tape w = concat (replicate k idle_poll_replies) @ Flag False # Flag True # rest"
  shows "await_login_result p w =
           (Inl OtpNoCallback,
            \<lparr>tape = rest,
             trace = trace w @ concat (replicate k (idle_poll_trace p))
                     @ [IsVisible (profile_btn (selectors p)), IsVisible (otp_input (selectors p))]\<rparr>)"
  using result_loop_otp_no_callback [OF assms(1), of 0 k w rest] assms(2,3)
  by (simp add: await_login_result_def bind_io_def)

text \<open>
  The whole of \<^verbatim>\<open>login\<close> with the email method on a landing page without dialogs: the
  handler requests the screenshot and throws the error of the loop again; when the
  screenshot request itself is rejected, that rejection is what \<^verbatim>\<open>login\<close> throws.
\<close>

lemma login_otp_without_callback:
  assumes "\<not> onOtpRequired p" and "k < 30"
    and "email creds = Some em" "em \<noteq> []" "password creds = Some pw" "pw \<noteq> []"
    and "login_method creds \<noteq> Some ''google''"
    and "tape w = landing_replies @ Done # replicate 6 Done
                  @ concat (replicate k idle_poll_replies) @ Flag False # Flag True # shot # rest"
  shows "login p creds w =
           (Inl (case shot of Fails x \<Rightarrow> Driver x | _ \<Rightarrow> OtpNoCallback),
            \<lparr>tape = rest,
             trace = trace w @ landing_trace p @ Click (landing_login_btn (selectors p))
                     # email_entry_trace p em pw @ concat (replicate k (idle_poll_trace p))
                     @ [IsVisible (profile_btn (selectors p)), IsVisible (otp_input (selectors p)),
                        Screenshot ''login_failure_node.png'']\<rparr>)"
proof -
  let ?w2 = "\<lparr>tape = concat (replicate k idle_poll_replies) @ Flag False # Flag True # shot # rest,
              trace = trace w @ landing_trace p @ Click (landing_login_btn (selectors p))
                      # email_entry_trace p em pw\<rparr>"
  have entry: "login p creds w =
      catch_io (await_login_result p)
        (\<lambda>e. then_io (void_call (Screenshot ''login_failure_node.png'')) (throw_io e)) ?w2"
    using assms(3-8)
    by (simp add: login_def handleDialogs_def already_logged_in_def login_from_landing_def
        login_attempt_def credential_entry_def io_defs landing_replies_def landing_trace_def
        email_entry_trace_def eval_nat_numeral)
  have loop: "result_loop p 0 ?w2 =
      (Inl OtpNoCallback,
       \<lparr>tape = shot # rest,
        trace = trace ?w2 @ concat (replicate k (idle_poll_trace p))
                @ [IsVisible (profile_btn (selectors p)), IsVisible (otp_input (selectors p))]\<rparr>)"
    by (rule result_loop_otp_no_callback [OF assms(1)]) (use assms(2) in simp_all)
  show ?thesis
    unfolding entry
    by (simp add: await_login_result_def catch_io_def bind_io_def loop then_io_def void_call_def
        call_def throw_io_def split: reply.splits)
qed

text \<open>
  Claim C7, as amended. Let \<^verbatim>\<open>login\<close>, called with email and password and on a provider
  without \<^verbatim>\<open>onOtpRequired\<close> callback, reach the polling loop (the navigation resolves, the
  profile button is not there yet, the click on the landing page and the credential entry
  resolve). Let the first \<open>k < 30\<close> rounds of the loop see neither marker and wait their
  second each, and let round \<open>k\<close> see no profile button and a visible passcode input. Then
  the loop throws \<open>OtpNoCallback\<close> in round \<open>k\<close>: the two visibility requests of that
  round are followed by the screenshot request of the handler only, so neither the
  remaining rounds nor the last 30-second wait take place; and \<^verbatim>\<open>login\<close> fails with
  \<open>OtpNoCallback\<close> when the screenshot request resolves (\<open>shot\<close> is its reply; a
  rejected screenshot request is thrown in its place).
\<close>

theorem login_otp_without_supplier:
  assumes "\<not> onOtpRequired p" and "k < 30"
    and "email creds = Some em" "em \<noteq> []" "password creds = Some pw" "pw \<noteq> []"
    and "void_call (Goto URL None) w = (Inr (), w1)"
    and "handleDialogs p w1 = (Inr (), w2)"
    and "already_logged_in p w2 = (Inr False, w3)"
    and "void_call (Click (landing_login_btn (selectors p))) w3 = (Inr (), w4)"
    and "credential_entry p em pw (login_method creds) w4 = (Inr (), w5)"
    and "tape w5 = concat (replicate k idle_poll_replies) @ Flag False # Flag True # shot # rest"
  shows "login p creds w =
           (Inl (case shot of Fails x \<Rightarrow> Driver x | _ \<Rightarrow> OtpNoCallback),
            \<lparr>tape = rest,
             trace = trace w5 @ concat (replicate k (idle_poll_trace p))
                     @ [IsVisible (profile_btn (selectors p)), IsVisible (otp_input (selectors p)),
                        Screenshot ''login_failure_node.png'']\<rparr>)"
proof -
  let ?w6 = "\<lparr>tape = shot # rest,
              trace = trace w5 @ concat (replicate k (idle_poll_trace p))
                      @ [IsVisible (profile_btn (selectors p)),
                         IsVisible (otp_input (selectors p))]\<rparr>"
  let ?w7 = "\<lparr>tape = rest,
              trace = trace w5 @ concat (replicate k (idle_poll_trace p))
                      @ [IsVisible (profile_btn (selectors p)), IsVisible (otp_input (selectors p)),
                         Screenshot ''login_failure_node.png'']\<rparr>"
  have loop: "result_loop p 0 w5 = (Inl OtpNoCallback, ?w6)"
    by (rule result_loop_otp_no_callback [OF assms(1)]) (use assms(2,12) in simp_all)
  have attempt: "login_attempt p em pw (login_method creds) w4 = (Inl OtpNoCallback, ?w6)"
    using assms(11) loop
    by (simp add: login_attempt_def await_login_result_def then_io_def bind_io_def)
  have handler:
    "then_io (void_call (Screenshot ''login_failure_node.png'')) (throw_io OtpNoCallback) ?w6
       = (Inl (case shot of Fails x \<Rightarrow> Driver x | _ \<Rightarrow> OtpNoCallback) :: error + bool, ?w7)"
    by (cases shot) (simp_all add: io_defs)
  have landing: "login_from_landing p creds w3
       = (Inl (case shot of Fails x \<Rightarrow> Driver x | _ \<Rightarrow> OtpNoCallback), ?w7)"
    using assms(3-6,10) attempt handler
    by (simp add: login_from_landing_def then_io_def bind_io_def catch_io_def)
  show ?thesis
    using assms(7-9) landing by (simp add: login_def then_io_def bind_io_def)
qed

text \<open>
  Claim C7 as stated fails: the passcode input is visible in the third round and there is
  no callback, but the screenshot request of the handler is rejected, and \<^verbatim>\<open>login\<close> fails
  with that rejection, not with \<open>OtpNoCallback\<close>.
\<close>

theorem login_otp_screenshot_rejected_counterexample:
  "login default_provider
     \<lparr>email = Some ''user@example.com'', password = Some ''secret'', login_method = None\<rparr>
     \<lparr>tape = landing_replies @ Done # replicate 6 Done
             @ concat (replicate 2 idle_poll_replies)
             @ [Flag False, Flag True, Fails TimeoutError],
      trace = []\<rparr>
   = (Inl (Driver TimeoutError),
      \<lparr>tape = [],
       trace = landing_trace default_provider
               @ Click (landing_login_btn (selectors default_provider))
               # email_entry_trace default_provider ''user@example.com'' ''secret''
               @ concat (replicate 2 (idle_poll_trace default_provider))
               @ [IsVisible (profile_btn (selectors default_provider)),
                  IsVisible (otp_input (selectors default_provider)),
                  Screenshot ''login_failure_node.png'']\<rparr>)"
proof -
  have no_callback: "\<not> onOtpRequired default_provider"
    by (simp add: default_provider_def new_ChatGPTProvider_def)
  show ?thesis
    using login_otp_without_callback
      [OF no_callback, of 2
        "\<lparr>email = Some ''user@example.com'', password = Some ''secret'', login_method = None\<rparr>"
        "''user@example.com''" "''secret''"
        "\<lparr>tape = landing_replies @ Done # replicate 6 Done
                 @ concat (replicate 2 idle_poll_replies)
                 @ [Flag False, Flag True, Fails TimeoutError],
          trace = []\<rparr>"
        "Fails TimeoutError" "[]"]
    by simp
qed

text \<open>A run of the theorem of claim C7: the same login with a screenshot that resolves.\<close>

theorem login_otp_without_supplier_witness:
  "\<not> onOtpRequired default_provider \<and> (2::nat) < 30
   \<and> login default_provider
       \<lparr>email = Some ''user@example.com'', password = Some ''secret'', login_method = None\<rparr>
       \<lparr>tape = landing_replies @ Done # replicate 6 Done
               @ concat (replicate 2 idle_poll_replies) @ [Flag False, Flag True, Done],
        trace = []\<rparr>
     = (Inl OtpNoCallback,
        \<lparr>tape = [],
         trace = landing_trace default_provider
                 @ Click (landing_login_btn (selectors default_provider))
                 # email_entry_trace default_provider ''user@example.com'' ''secret''
                 @ concat (replicate 2 (idle_poll_trace default_provider))
                 @ [IsVisible (profile_btn (selectors default_provider)),
                    IsVisible (otp_input (selectors default_provider)),
                    Screenshot ''login_failure_node.png'']\<rparr>)"
proof -
  let ?p = default_provider
  let ?c = "\<lparr>email = Some ''user@example.com'', password = Some ''secret'', login_method = None\<rparr>"
  let ?T = "concat (replicate 2 idle_poll_replies) @ Flag False # Flag True # Done # []"
  let ?w = "\<lparr>tape = landing_replies @ Done # replicate 6 Done
                   @ concat (replicate 2 idle_poll_replies) @ [Flag False, Flag True, Done],
             trace = []\<rparr>"
  let ?w1 = "\<lparr>tape = [Flag False, Flag False, Fails TimeoutError, Done] @ replicate 6 Done @ ?T,
              trace = [Goto URL None]\<rparr>"
  let ?w2 = "\<lparr>tape = [Fails TimeoutError, Done] @ replicate 6 Done @ ?T,
              trace = take 3 (landing_trace ?p)\<rparr>"
  let ?w3 = "\<lparr>tape = Done # replicate 6 Done @ ?T, trace = landing_trace ?p\<rparr>"
  let ?w4 = "\<lparr>tape = replicate 6 Done @ ?T,
              trace = landing_trace ?p @ [Click (landing_login_btn (selectors ?p))]\<rparr>"
  let ?w5 = "\<lparr>tape = ?T,
              trace = landing_trace ?p @ Click (landing_login_btn (selectors ?p))
                      # email_entry_trace ?p ''user@example.com'' ''secret''\<rparr>"
  have no_callback: "\<not> onOtpRequired ?p"
    by (simp add: default_provider_def new_ChatGPTProvider_def)
  have k: "(2::nat) < 30" by simp
  have c: "email ?c = Some ''user@example.com''" "''user@example.com'' \<noteq> []"
    "password ?c = Some ''secret''" "''secret'' \<noteq> []" by simp_all
  have h1: "void_call (Goto URL None) ?w = (Inr (), ?w1)"
    by (simp add: io_defs landing_replies_def)
  have h2: "handleDialogs ?p ?w1 = (Inr (), ?w2)"
    by (simp add: handleDialogs_def io_defs landing_trace_def)
  have h3: "already_logged_in ?p ?w2 = (Inr False, ?w3)"
    by (simp add: already_logged_in_def io_defs landing_trace_def)
  have h4: "void_call (Click (landing_login_btn (selectors ?p))) ?w3 = (Inr (), ?w4)"
    by (simp add: io_defs)
  have h5: "credential_entry ?p ''user@example.com'' ''secret'' (login_method ?c) ?w4
              = (Inr (), ?w5)"
    by (simp add: credential_entry_def io_defs email_entry_trace_def eval_nat_numeral)
  have t: "tape ?w5 = ?T" by simp
  from login_otp_without_supplier [OF no_callback k c h1 h2 h3 h4 h5 t] no_callback
  show ?thesis by simp
qed

section \<open>Completion detection\<close>

lemma extract_response_errors:
  "raises (\<lambda>e. e = NoAssistantMessages \<or> (\<exists>x. e = Driver x)) (extract_response p)"
  unfolding extract_response_def by (intro raises_intros) simp_all

lemma await_completion_no_indicator:
  assumes "tape w = Fails x # Flag visible # rest"
  shows "await_completion p w =
           ((if visible then Inr () else Inl ResponseTimeout),
            \<lparr>tape = rest,
             trace = trace w @ [WaitForSelector (stop_btn (selectors p)) None (Some 5000),
                                IsVisible (send_btn (selectors p))]\<rparr>)"
  using assms by (simp add: await_completion_def io_defs)

text \<open>
  Claim C5. Let \<^verbatim>\<open>sendPrompt\<close> have passed the dialogs and the submission, and let the wait
  for the stop indicator fail (it did not appear within its 5 seconds); let the send
  control then be reported visible or not. Completion detection succeeds exactly when the
  send control is visible, and \<^verbatim>\<open>sendPrompt\<close> then goes on to extraction as after a finished
  generation, without waiting for the indicator to disappear; when the send control is
  not visible \<^verbatim>\<open>sendPrompt\<close> fails with \<open>ResponseTimeout\<close>, and that is the only case in
  which it fails with this error.
\<close>

theorem completion_without_indicator:
  assumes "handleDialogs p w = (Inr (), w1)"
    and "submit_prompt p prompt w1 = (Inr (), w2)"
    and "tape w2 = Fails x # Flag visible # rest"
  shows "(let w3 = \<lparr>tape = rest,
                    trace = trace w2 @ [WaitForSelector (stop_btn (selectors p)) None (Some 5000),
                                        IsVisible (send_btn (selectors p))]\<rparr>
          in await_completion p w2 = ((if visible then Inr () else Inl ResponseTimeout), w3)
             \<and> sendPrompt p prompt w
                 = (if visible then extract_response p w3 else (Inl ResponseTimeout, w3)))
         \<and> (fst (sendPrompt p prompt w) = Inl ResponseTimeout \<longleftrightarrow> \<not> visible)"
proof -
  let ?w3 = "\<lparr>tape = rest,
              trace = trace w2 @ [WaitForSelector (stop_btn (selectors p)) None (Some 5000),
                                  IsVisible (send_btn (selectors p))]\<rparr>"
  have ac: "await_completion p w2 = ((if visible then Inr () else Inl ResponseTimeout), ?w3)"
    using assms(3) by (rule await_completion_no_indicator)
  have sp: "sendPrompt p prompt w
              = (if visible then extract_response p ?w3 else (Inl ResponseTimeout, ?w3))"
    using assms(1,2) ac by (simp add: sendPrompt_def then_io_def bind_io_def)
  have "fst (sendPrompt p prompt w) = Inl ResponseTimeout \<longleftrightarrow> \<not> visible"
  proof (cases visible)
    case False
    with sp show ?thesis by simp
  next
    case True
    have "fst (extract_response p ?w3) \<noteq> Inl ResponseTimeout"
    proof
      assume "fst (extract_response p ?w3) = Inl ResponseTimeout"
      then obtain w' where "extract_response p ?w3 = (Inl ResponseTimeout, w')"
        by (cases "extract_response p ?w3") auto
      from raisesD [OF extract_response_errors this] show False by simp
    qed
    with sp True show ?thesis by simp
  qed
  with ac sp show ?thesis by (simp add: Let_def)
qed

text \<open>Two runs of the theorem of claim C5: send control visible, and not visible.\<close>

theorem completion_without_indicator_witness:
  "sendPrompt default_provider ''What is 2 + 2?''
     \<lparr>tape = submission_replies
             @ [Fails TimeoutError, Flag True, Done, Handles [3], Handles [4], Text ''4''],
      trace = []\<rparr>
   = (Inr ''4'',
      \<lparr>tape = [],
       trace = submission_trace default_provider ''What is 2 + 2?''
               @ [WaitForSelector (stop_btn (selectors default_provider)) None (Some 5000),
                  IsVisible (send_btn (selectors default_provider)),
                  WaitForSelector (assistant_msg (selectors default_provider)) None (Some 5000),
                  QueryAll (assistant_msg (selectors default_provider)),
                  QueryWithin 3 ''.markdown'',
                  InnerText 4]\<rparr>)
   \<and> sendPrompt default_provider ''What is 2 + 2?''
     \<lparr>tape = submission_replies @ [Fails TimeoutError, Flag False], trace = []\<rparr>
   = (Inl ResponseTimeout,
      \<lparr>tape = [],
       trace = submission_trace default_provider ''What is 2 + 2?''
               @ [WaitForSelector (stop_btn (selectors default_provider)) None (Some 5000),
                  IsVisible (send_btn (selectors default_provider))]\<rparr>)"
proof -
  let ?p = default_provider
  let ?q = "''What is 2 + 2?''"
  let ?tail = "[Done, Handles [3], Handles [4], Text ''4'']"
  have hd: "handleDialogs ?p \<lparr>tape = submission_replies @ t, trace = []\<rparr>
      = (Inr (), \<lparr>tape = drop 2 submission_replies @ t, trace = take 2 (submission_trace ?p ?q)\<rparr>)"
    for t
    by (simp add: handleDialogs_def io_defs submission_replies_def submission_trace_def)
  have sub: "submit_prompt ?p ?q
        \<lparr>tape = drop 2 submission_replies @ t, trace = take 2 (submission_trace ?p ?q)\<rparr>
      = (Inr (), \<lparr>tape = t, trace = submission_trace ?p ?q\<rparr>)" for t
    by (simp add: submit_prompt_def io_defs submission_replies_def submission_trace_def)
  have ex: "extract_response ?p \<lparr>tape = ?tail, trace = t\<rparr>
      = (Inr ''4'',
         \<lparr>tape = [],
          trace = t @ [WaitForSelector (assistant_msg (selectors ?p)) None (Some 5000),
                       QueryAll (assistant_msg (selectors ?p)),
                       QueryWithin 3 ''.markdown'', InnerText 4]\<rparr>)" for t
    by (simp add: extract_response_def io_defs)
  from completion_without_indicator
         [OF hd sub, of "Fails TimeoutError # Flag True # ?tail" TimeoutError True ?tail]
       completion_without_indicator
         [OF hd sub, of "[Fails TimeoutError, Flag False]" TimeoutError False "[]"]
  show ?thesis by (simp add: Let_def ex)
qed

section \<open>The authentication check\<close>

lemma isAuthenticated_run:
  assumes "bm_page bm \<noteq> None"
  shows "isAuthenticated bm url selector w =
           (Inr (\<not> is_failure (reply_at w 0) \<and> \<not> is_failure (reply_at w 1)),
            \<lparr>tape = drop (if is_failure (reply_at w 0) then 1 else 2) (tape w),
             trace = trace w @ Goto url (Some ''domcontentloaded'')
                     # (if is_failure (reply_at w 0) then []
                        else [WaitForSelector selector None (Some 5000)])\<rparr>)"
proof (cases "tape w")
  case Nil
  with assms show ?thesis
    by (simp add: isAuthenticated_def io_defs reply_at_def is_failure_def)
next
  case (Cons r rs)
  show ?thesis
  proof (cases rs)
    case Nil
    with Cons assms show ?thesis
      by (cases r) (simp_all add: isAuthenticated_def io_defs reply_at_def is_failure_def)
  next
    case (Cons r' rs')
    with \<open>tape w = r # rs\<close> assms show ?thesis
      by (cases r; cases r')
        (simp_all add: isAuthenticated_def io_defs reply_at_def is_failure_def)
  qed
qed

text \<open>
  Claim C8, as amended. On a manager whose page exists, \<^verbatim>\<open>isAuthenticated\<close> never fails: it
  navigates, and returns \<^verbatim>\<open>true\<close> exactly when the navigation resolves and the wait of 5000
  milliseconds for the marker resolves; it returns \<^verbatim>\<open>false\<close> when the navigation is rejected
  (the marker is then not waited for) or the wait is.
\<close>

theorem isAuthenticated_started:
  assumes "bm_page bm \<noteq> None"
  shows "isAuthenticated bm url selector w =
           (Inr (\<not> is_failure (reply_at w 0) \<and> \<not> is_failure (reply_at w 1)),
            \<lparr>tape = drop (if is_failure (reply_at w 0) then 1 else 2) (tape w),
             trace = trace w @ Goto url (Some ''domcontentloaded'')
                     # (if is_failure (reply_at w 0) then []
                        else [WaitForSelector selector None (Some 5000)])\<rparr>)"
  using assms by (rule isAuthenticated_run)

text \<open>
  Claim C8 as stated fails: on a manager that was never started, \<^verbatim>\<open>isAuthenticated\<close> throws
  \<open>BrowserNotStarted\<close> and makes no request.
\<close>

theorem isAuthenticated_before_start_counterexample:
  "isAuthenticated (new_BrowserManager ''profile'') URL (SEL_PROFILE_BTN default_provider)
     \<lparr>tape = [Done, Done], trace = []\<rparr>
   = (Inl BrowserNotStarted, \<lparr>tape = [Done, Done], trace = []\<rparr>)"
  by (simp add: isAuthenticated_def new_BrowserManager_def throw_io_def)

text \<open>Three runs of the theorem of claim C8: marker found, marker absent, navigation failed.\<close>

theorem isAuthenticated_started_witness:
  "bm_page started_manager \<noteq> None
   \<and> isAuthenticated started_manager URL (SEL_PROFILE_BTN default_provider)
       \<lparr>tape = [Done, Done], trace = []\<rparr>
     = (Inr True,
        \<lparr>tape = [],
         trace = [Goto URL (Some ''domcontentloaded''),
                  WaitForSelector (SEL_PROFILE_BTN default_provider) None (Some 5000)]\<rparr>)
   \<and> isAuthenticated started_manager URL (SEL_PROFILE_BTN default_provider)
       \<lparr>tape = [Done, Fails TimeoutError], trace = []\<rparr>
     = (Inr False,
        \<lparr>tape = [],
         trace = [Goto URL (Some ''domcontentloaded''),
                  WaitForSelector (SEL_PROFILE_BTN default_provider) None (Some 5000)]\<rparr>)
   \<and> isAuthenticated started_manager URL (SEL_PROFILE_BTN default_provider)
       \<lparr>tape = [Fails (OtherError ''net::ERR_NAME_NOT_RESOLVED'')], trace = []\<rparr>
     = (Inr False, \<lparr>tape = [], trace = [Goto URL (Some ''domcontentloaded'')]\<rparr>)"
proof -
  have started: "bm_page started_manager \<noteq> None"
    by (simp add: started_manager_def)
  from isAuthenticated_started [OF started, of URL "SEL_PROFILE_BTN default_provider"
         "\<lparr>tape = [Done, Done], trace = []\<rparr>"]
       isAuthenticated_started [OF started, of URL "SEL_PROFILE_BTN default_provider"
         "\<lparr>tape = [Done, Fails TimeoutError], trace = []\<rparr>"]
       isAuthenticated_started [OF started, of URL "SEL_PROFILE_BTN default_provider"
         "\<lparr>tape = [Fails (OtherError ''net::ERR_NAME_NOT_RESOLVED'')], trace = []\<rparr>"]
       started
  show ?thesis by (simp add: reply_at_def is_failure_def)
qed

section \<open>Closing\<close>

lemma void_call_resolves:
  "\<not> is_failure (reply_at w 0) \<Longrightarrow>
     void_call a w = (Inr (), \<lparr>tape = drop 1 (tape w), trace = trace w @ [a]\<rparr>)"
  by (cases "tape w"; cases "hd (tape w)")
     (simp_all add: io_defs reply_at_def is_failure_def)

lemma reply_at_drop [simp]: "reply_at \<lparr>tape = drop k (tape w), trace = t\<rparr> i = reply_at w (k + i)"
  by (auto simp: reply_at_def)

lemma close_once:
  assumes "\<forall>i < length (close_requests a). \<not> is_failure (reply_at w i)"
  shows "close a w =
           (Inr (), \<lparr>tape = drop (length (close_requests a)) (tape w),
                     trace = trace w @ close_requests a\<rparr>)"
proof (cases "browserManager a")
  case None
  then show ?thesis by (simp add: close_def close_requests_def return_io_def)
next
  case (Some bm)
  show ?thesis
  proof (cases "bm_context bm = None")
    case True
    show ?thesis
    proof (cases "bm_browser bm = None")
      case True
      with Some \<open>bm_context bm = None\<close> show ?thesis
        by (simp add: close_def close_requests_def stop_def then_io_def bind_io_def return_io_def)
    next
      case False
      with Some \<open>bm_context bm = None\<close> assms have "\<not> is_failure (reply_at w 0)"
        by (auto simp: close_requests_def)
      from void_call_resolves [OF this] Some \<open>bm_context bm = None\<close> False show ?thesis
        by (simp add: close_def close_requests_def stop_def then_io_def bind_io_def return_io_def)
    qed
  next
    case False
    show ?thesis
    proof (cases "bm_browser bm = None")
      case True
      with Some \<open>bm_context bm \<noteq> None\<close> assms have "\<not> is_failure (reply_at w 0)"
        by (auto simp: close_requests_def)
      from void_call_resolves [OF this] Some \<open>bm_context bm \<noteq> None\<close> True show ?thesis
        by (simp add: close_def close_requests_def stop_def then_io_def bind_io_def return_io_def)
    next
      case nb: False
      with Some \<open>bm_context bm \<noteq> None\<close> assms
      have r: "\<not> is_failure (reply_at w 0)" "\<not> is_failure (reply_at w 1)"
        by (auto simp: close_requests_def)
      let ?w1 = "\<lparr>tape = drop 1 (tape w), trace = trace w @ [ContextClose]\<rparr>"
      from r(2) have "\<not> is_failure (reply_at ?w1 0)" by simp
      from void_call_resolves [OF r(1)] void_call_resolves [OF this]
        Some \<open>bm_context bm \<noteq> None\<close> nb show ?thesis
        by (simp add: close_def close_requests_def stop_def then_io_def bind_io_def return_io_def)
    qed
  qed
qed

lemma close_times_resolves:
  "\<forall>i < n * length (close_requests a). \<not> is_failure (reply_at w i) \<Longrightarrow>
   close_times n a w =
     (Inr (), \<lparr>tape = drop (n * length (close_requests a)) (tape w),
               trace = trace w @ concat (replicate n (close_requests a))\<rparr>)"
proof (induction n arbitrary: w)
  case 0
  then show ?case by (simp add: return_io_def)
next
  case (Suc n)
  let ?k = "length (close_requests a)"
  let ?w1 = "\<lparr>tape = drop ?k (tape w), trace = trace w @ close_requests a\<rparr>"
  from Suc.prems have first: "\<forall>i < ?k. \<not> is_failure (reply_at w i)" by simp
  have c: "close a w = (Inr (), ?w1)" by (rule close_once [OF first])
  have "\<forall>i < n * ?k. \<not> is_failure (reply_at ?w1 i)"
    using Suc.prems by simp
  from Suc.IH [OF this] c show ?case
    by (simp add: then_io_def bind_io_def add.commute)
qed

lemma close_errors: "raises (\<lambda>e. \<exists>x. e = Driver x) (close a)"
  unfolding close_def stop_def
  by (cases "browserManager a") (auto intro!: raises_intros)

text \<open>
  Claim C9, as amended. \<^verbatim>\<open>close\<close> called \<open>n\<close> times in sequence, for any \<open>n\<close>: when
  \<^verbatim>\<open>init\<close> never ran, or no context was created, every call leaves the world as it is and
  none throws; when a context exists, every call (a repeated one too) makes the same close
  request to the driver, and if the driver rejects none of these requests then none of the
  calls throws. \<^verbatim>\<open>close\<close> throws nothing of its own: its only errors are rejections by the
  driver.
\<close>

theorem close_repeatedly:
  "(close_requests a = [] \<longrightarrow> close_times n a w = (Inr (), w))
   \<and> ((\<forall>i < n * length (close_requests a). \<not> is_failure (reply_at w i)) \<longrightarrow>
        close_times n a w =
          (Inr (), \<lparr>tape = drop (n * length (close_requests a)) (tape w),
                    trace = trace w @ concat (replicate n (close_requests a))\<rparr>))
   \<and> (\<forall>e w'. close a w = (Inl e, w') \<longrightarrow> (\<exists>x. e = Driver x))"
proof (intro conjI impI allI)
  assume "close_requests a = []"
  with close_times_resolves [of n a w] show "close_times n a w = (Inr (), w)" by simp
next
  assume "\<forall>i < n * length (close_requests a). \<not> is_failure (reply_at w i)"
  then show "close_times n a w =
          (Inr (), \<lparr>tape = drop (n * length (close_requests a)) (tape w),
                    trace = trace w @ concat (replicate n (close_requests a))\<rparr>)"
    by (rule close_times_resolves)
next
  fix e w' assume "close a w = (Inl e, w')"
  with close_errors show "\<exists>x. e = Driver x" by (rule raisesD)
qed

text \<open>
  Claim C9 as stated fails: after a successful start, a close request that the driver
  rejects makes \<^verbatim>\<open>close\<close> throw.
\<close>

theorem close_rejected_counterexample:
  "close ready_automator \<lparr>tape = [Fails (OtherError ''context.close rejected'')], trace = []\<rparr>
   = (Inl (Driver (OtherError ''context.close rejected'')), \<lparr>tape = [], trace = [ContextClose]\<rparr>)"
  by (simp add: close_def stop_def ready_automator_def started_manager_def
      new_BrowserManager_def io_defs)

text \<open>
  Two runs of the theorem of claim C9: three calls on a fresh orchestrator, and two calls
  after a successful start with a driver that resolves both close requests.
\<close>

theorem close_repeatedly_witness:
  "close_requests (new_Automator ''chatgpt'' True None None None False) = []
   \<and> close_times 3 (new_Automator ''chatgpt'' True None None None False)
       \<lparr>tape = [], trace = []\<rparr>
     = (Inr (), \<lparr>tape = [], trace = []\<rparr>)
   \<and> close_times 2 ready_automator \<lparr>tape = [Done, Done], trace = []\<rparr>
     = (Inr (), \<lparr>tape = [], trace = [ContextClose, ContextClose]\<rparr>)"
proof -
  let ?a = "new_Automator ''chatgpt'' True None None None False"
  have fresh: "close_requests ?a = []"
    by (simp add: close_requests_def new_Automator_def)
  have ready: "close_requests ready_automator = [ContextClose]"
    by (simp add: close_requests_def ready_automator_def started_manager_def
        new_BrowserManager_def)
  have replies: "\<forall>i < 2 * length (close_requests ready_automator).
      \<not> is_failure (reply_at \<lparr>tape = [Done, Done], trace = []\<rparr> i)"
    by (simp add: ready reply_at_def is_failure_def less_Suc_eq eval_nat_numeral)
  from close_repeatedly [of ?a 3 "\<lparr>tape = [], trace = []\<rparr>"]
       close_repeatedly [of ready_automator 2 "\<lparr>tape = [Done, Done], trace = []\<rparr>"]
       fresh ready replies
  show ?thesis by (simp add: eval_nat_numeral)
qed

section \<open>Initialisation\<close>

lemma emits_exists_call: "P a \<Longrightarrow> emits P (exists_call a)"
  unfolding emits_def
proof
  fix w assume "P a"
  have "snd (exists_call a w) = snd (call a w)"
    by (simp add: exists_call_def split: prod.splits reply.splits bool.splits)
  with \<open>P a\<close> show "\<exists>d. trace (snd (exists_call a w)) = trace w @ d \<and> list_all P d"
    by (simp add: trace_call)
qed

lemma emits_load_session:
  assumes "\<And>f. P (ExistsSync f)" "\<And>f. P (ReadJSON f)" "P AddCookies"
  shows "emits P (load_session sp)"
  unfolding load_session_def
  by (cases sp) (auto intro!: emits_intros emits_exists_call assms)

lemma handles_call_trace: "handles_call a w = (r, w') \<Longrightarrow> trace w' = trace w @ [a]"
  using trace_call [of a w] by (auto simp: handles_call_def split: prod.splits reply.splits)

text \<open>The requests that \<^verbatim>\<open>start\<close> can make are those of its seven kinds.\<close>

lemma start_emits:
  assumes P: "\<And>f. P (EnsureDirSync f)" "\<And>f b. P (LaunchPersistentContext f b)"
      "\<And>f. P (ExistsSync f)" "\<And>f. P (ReadJSON f)" "P AddCookies" "P Pages" "P NewPage"
    and s: "start bm hl sp w = (r, bm', w')"
  shows "\<exists>d. trace w' = trace w @ d \<and> list_all P d"
proof -
  let ?ensure = "void_call (EnsureDirSync (userDataDir bm))"
  let ?launch = "void_call (LaunchPersistentContext (userDataDir bm) hl)"
  obtain r1 w1 where e: "?ensure w = (r1, w1)" by (cases "?ensure w")
  then have t1: "trace w1 = trace w @ [EnsureDirSync (userDataDir bm)]"
    by (rule void_call_trace)
  show ?thesis
  proof (cases r1)
    case (Inl x)
    with s e have "w' = w1" by (simp add: start_def)
    with t1 P show ?thesis by simp
  next
    case r1: (Inr u1)
    obtain r2 w2 where l: "?launch w1 = (r2, w2)" by (cases "?launch w1")
    then have t2: "trace w2 = trace w1 @ [LaunchPersistentContext (userDataDir bm) hl]"
      by (rule void_call_trace)
    show ?thesis
    proof (cases r2)
      case (Inl x)
      with s e r1 l have "w' = w2" by (simp add: start_def)
      with t1 t2 P show ?thesis by simp
    next
      case r2: (Inr u2)
      obtain r3 w3 where ld: "load_session sp w2 = (r3, w3)" by (cases "load_session sp w2")
      from emitsD [OF emits_load_session ld, of P] P
      obtain d3 where t3: "trace w3 = trace w2 @ d3" "list_all P d3" by blast
      show ?thesis
      proof (cases r3)
        case (Inl x)
        with s e r1 l r2 ld have "w' = w3" by (simp add: start_def)
        with t1 t2 t3 P show ?thesis by simp
      next
        case r3: (Inr u3)
        obtain r4 w4 where pg: "handles_call Pages w3 = (r4, w4)"
          by (cases "handles_call Pages w3")
        then have t4: "trace w4 = trace w3 @ [Pages]" by (rule handles_call_trace)
        show ?thesis
        proof (cases r4)
          case (Inl x)
          with s e r1 l r2 ld r3 pg have "w' = w4" by (simp add: start_def)
          with t1 t2 t3 t4 P show ?thesis by simp
        next
          case r4: (Inr hs)
          show ?thesis
          proof (cases hs)
            case (Cons h hs')
            with s e r1 l r2 ld r3 pg r4 have "w' = read_again Pages w4"
              by (simp add: start_def)
            with t1 t2 t3 t4 P show ?thesis by (simp add: read_again_def)
          next
            case Nil
            obtain r5 w5 where n: "void_call NewPage w4 = (r5, w5)"
              by (cases "void_call NewPage w4")
            then have t5: "trace w5 = trace w4 @ [NewPage]" by (rule void_call_trace)
            from s e r1 l r2 ld r3 pg r4 Nil n have "w' = w5"
              by (cases r5) (simp_all add: start_def)
            with t1 t2 t3 t4 t5 P show ?thesis by simp
          qed
        qed
      qed
    qed
  qed
qed

lemma start_success:
  assumes "start bm hl sp w = (Inr pg, bm', w')"
  shows "bm_context bm' = Some BrowserContext \<and> bm_page bm' = Some Page
         \<and> userDataDir bm' = userDataDir bm \<and> bm_browser bm' = bm_browser bm
         \<and> LaunchPersistentContext (userDataDir bm) hl \<in> set (trace w')"
proof -
  from assms obtain w1 w2 w3 w4 hs where
    ensure: "void_call (EnsureDirSync (userDataDir bm)) w = (Inr (), w1)" and
    launch: "void_call (LaunchPersistentContext (userDataDir bm) hl) w1 = (Inr (), w2)" and
    load: "load_session sp w2 = (Inr (), w3)" and
    pages: "handles_call Pages w3 = (Inr hs, w4)" and
    rest: "(hs \<noteq> [] \<and> w' = read_again Pages w4)
           \<or> (hs = [] \<and> void_call NewPage w4 = (Inr (), w'))" and
    bm': "bm' = bm\<lparr>bm_context := Some BrowserContext, bm_page := Some Page\<rparr>"
    by (auto simp: start_def split: prod.splits sum.splits list.splits)
  from launch have t2: "trace w2 = trace w1 @ [LaunchPersistentContext (userDataDir bm) hl]"
    by (rule void_call_trace)
  from emitsD [OF emits_load_session load, of "\<lambda>_. True"]
  obtain d3 where t3: "trace w3 = trace w2 @ d3"
    by auto
  from pages have t4: "trace w4 = trace w3 @ [Pages]" by (rule handles_call_trace)
  from rest have "\<exists>d. trace w' = trace w4 @ d"
    by (auto simp: read_again_def dest: void_call_trace)
  with t2 t3 t4 bm' show ?thesis by auto
qed

lemma void_call_error: "void_call a w = (Inl e, w') \<Longrightarrow> \<exists>x. e = Driver x"
  by (auto simp: void_call_def split: prod.splits reply.splits)

lemma handles_call_error: "handles_call a w = (Inl e, w') \<Longrightarrow> \<exists>x. e = Driver x"
  by (auto simp: handles_call_def split: prod.splits reply.splits)

lemma exists_call_ok: "raises Q (exists_call a)"
  by (auto simp: raises_def exists_call_def split: prod.splits reply.splits bool.splits)

lemma swallow_raises: "raises Q (swallow m)"
  unfolding swallow_def by (intro raises_catch raises_return)

lemma load_session_ok: "raises (\<lambda>_. False) (load_session sp)"
  unfolding load_session_def
  by (cases sp) (auto intro!: raises_intros exists_call_ok swallow_raises)

lemma start_errors:
  assumes "start bm hl sp w = (Inl e, bm', w')"
  shows "e = LaunchFailed \<or> (\<exists>x. e = Driver x)"
  using assms raisesD [OF load_session_ok]
  by (auto simp: start_def split: prod.splits sum.splits list.splits
      dest: void_call_error handles_call_error)

lemma not_goto [simp]:
  "\<not> is_goto (EnsureDirSync f)" "\<not> is_goto (LaunchPersistentContext f b)"
  "\<not> is_goto (ExistsSync f)" "\<not> is_goto (ReadJSON f)" "\<not> is_goto AddCookies"
  "\<not> is_goto Pages" "\<not> is_goto NewPage" "\<not> is_goto GrantPermissions"
  by (simp_all add: is_goto_def)

text \<open>
  Claim C4, as amended. With a provider name other than \<^verbatim>\<open>chatgpt\<close>, the result of
  \<^verbatim>\<open>init\<close> is fixed by the start of the browser and the grant of the clipboard
  permissions: when the start fails, \<^verbatim>\<open>init\<close> fails with the error of the start; when the
  grant fails, with the error of the grant; otherwise with \<open>UnknownProvider\<close>, and the
  browser has then been launched and the session store holds its context and its page. In
  each case the last request of \<^verbatim>\<open>init\<close> is the last one of the start or the grant, no
  request is a navigation (the authentication check, which begins with one, is not run),
  \<^verbatim>\<open>init\<close> does not succeed, and it builds no provider.
\<close>

theorem init_unknown_provider:
  assumes "providerName a \<noteq> ''chatgpt''"
    and "start (new_BrowserManager (profile_dir env)) (headless a) (sessionPath a) w
           = (r0, bm, w1)"
  shows "init a env w =
           (case r0 of
              Inl e \<Rightarrow> (Inl e, a\<lparr>browserManager := Some bm\<rparr>, w1)
            | Inr pg \<Rightarrow>
                (case void_call GrantPermissions w1 of
                   (Inl e, w2) \<Rightarrow> (Inl e, a\<lparr>browserManager := Some bm\<rparr>, w2)
                 | (Inr u, w2) \<Rightarrow>
                     (Inl (UnknownProvider (providerName a)),
                      a\<lparr>browserManager := Some bm\<rparr>, w2)))
         \<and> (\<forall>pg. r0 = Inr pg \<longrightarrow>
               bm_context bm = Some BrowserContext \<and> bm_page bm = Some Page \<and>
               LaunchPersistentContext (profile_dir env) (headless a) \<in> set (trace w1))
         \<and> (\<forall>e. r0 = Inl e \<longrightarrow> e \<noteq> UnknownProvider (providerName a))
         \<and> (\<forall>e w2. void_call GrantPermissions w1 = (Inl e, w2) \<longrightarrow>
               e \<noteq> UnknownProvider (providerName a))
         \<and> fst (init a env w) \<noteq> Inr ()
         \<and> provider (fst (snd (init a env w))) = provider a
         \<and> (\<exists>d. trace (snd (snd (init a env w))) = trace w @ d \<and> \<not> list_ex is_goto d)"
proof -
  let ?grant = "void_call GrantPermissions"
  have ctx: "bm_context bm \<noteq> None" if "r0 = Inr pg" for pg
    using start_success [of "new_BrowserManager (profile_dir env)" "headless a" "sessionPath a"
        w pg bm w1] assms(2) that by simp
  have eq: "init a env w =
           (case r0 of
              Inl e \<Rightarrow> (Inl e, a\<lparr>browserManager := Some bm\<rparr>, w1)
            | Inr pg \<Rightarrow>
                (case ?grant w1 of
                   (Inl e, w2) \<Rightarrow> (Inl e, a\<lparr>browserManager := Some bm\<rparr>, w2)
                 | (Inr u, w2) \<Rightarrow>
                     (Inl (UnknownProvider (providerName a)),
                      a\<lparr>browserManager := Some bm\<rparr>, w2)))"
    using assms ctx by (cases r0) (simp_all add: init_def split: prod.splits sum.splits)
  have started: "\<forall>pg. r0 = Inr pg \<longrightarrow>
               bm_context bm = Some BrowserContext \<and> bm_page bm = Some Page \<and>
               LaunchPersistentContext (profile_dir env) (headless a) \<in> set (trace w1)"
    using start_success [of "new_BrowserManager (profile_dir env)" "headless a" "sessionPath a"
        w _ bm w1] assms(2) by (simp add: new_BrowserManager_def)
  have serr: "\<forall>e. r0 = Inl e \<longrightarrow> e \<noteq> UnknownProvider (providerName a)"
    using start_errors [of "new_BrowserManager (profile_dir env)" "headless a" "sessionPath a"
        w _ bm w1] assms(2) by auto
  have gerr: "\<forall>e w2. ?grant w1 = (Inl e, w2) \<longrightarrow> e \<noteq> UnknownProvider (providerName a)"
    by (auto dest: void_call_error)
  from start_emits [of "\<lambda>a. \<not> is_goto a", OF _ _ _ _ _ _ _ assms(2)]
  obtain d1 where d1: "trace w1 = trace w @ d1" "list_all (\<lambda>a. \<not> is_goto a) d1"
    by auto
  obtain rg w2 where g: "?grant w1 = (rg, w2)" by (cases "?grant w1")
  then have t2: "trace w2 = trace w1 @ [GrantPermissions]" by (rule void_call_trace)
  have fails: "fst (init a env w) \<noteq> Inr ()"
    using g by (cases r0; cases rg) (simp_all add: eq)
  have prov: "provider (fst (snd (init a env w))) = provider a"
    using g by (cases r0; cases rg) (simp_all add: eq)
  have "trace (snd (snd (init a env w))) = trace w1 \<or> trace (snd (snd (init a env w))) = trace w2"
    using g by (cases r0; cases rg) (simp_all add: eq)
  with d1 t2 have nav: "\<exists>d. trace (snd (snd (init a env w))) = trace w @ d \<and> \<not> list_ex is_goto d"
    by (auto simp: list_ex_iff list_all_iff)
  from eq started serr gerr fails prov nav show ?thesis by blast
qed

lemma start_run:
  "start (new_BrowserManager ''profile'') True None \<lparr>tape = start_replies @ t, trace = []\<rparr>
   = (Inr Page, started_manager, \<lparr>tape = t, trace = start_trace\<rparr>)"
  by (simp add: start_def load_session_def read_again_def io_defs start_replies_def
      start_trace_def
      started_manager_def new_BrowserManager_def)

text \<open>
  Claim C4 as stated fails: with the provider name \<^verbatim>\<open>gemini\<close>, \<^verbatim>\<open>init\<close> launches the browser,
  takes its page and grants the permissions before it fails, and leaves context and page
  in the session store.
\<close>

theorem init_unknown_provider_counterexample:
  "init (new_Automator ''gemini'' True None None None False) empty_env
     \<lparr>tape = start_replies @ [Done], trace = []\<rparr>
   = (Inl (UnknownProvider ''gemini''),
      (new_Automator ''gemini'' True None None None False)
        \<lparr>browserManager := Some started_manager\<rparr>,
      \<lparr>tape = [], trace = start_trace @ [GrantPermissions]\<rparr>)
   \<and> bm_context started_manager = Some BrowserContext
   \<and> bm_page started_manager = Some Page
   \<and> LaunchPersistentContext ''profile'' True \<in> set (start_trace @ [GrantPermissions])"
proof -
  have s: "start (new_BrowserManager (profile_dir empty_env))
      (headless (new_Automator ''gemini'' True None None None False))
      (sessionPath (new_Automator ''gemini'' True None None None False))
      \<lparr>tape = start_replies @ [Done], trace = []\<rparr>
      = (Inr Page, started_manager, \<lparr>tape = [Done], trace = start_trace\<rparr>)"
    using start_run [of "[Done]"] by (simp add: empty_env_def new_Automator_def)
  have c: "bm_context started_manager = Some BrowserContext" "bm_page started_manager = Some Page"
    by (simp_all add: started_manager_def)
  have l: "LaunchPersistentContext ''profile'' True \<in> set (start_trace @ [GrantPermissions])"
    by (simp add: start_trace_def)
  have "providerName (new_Automator ''gemini'' True None None None False) = ''gemini''"
    by (simp add: new_Automator_def)
  with s c l show ?thesis
    by (simp add: init_def io_defs)
qed

text \<open>
  Three runs of the theorem of claim C4: the run above, a rejected grant, and a failed
  launch.
\<close>

theorem init_unknown_provider_witness:
  "providerName (new_Automator ''gemini'' True None None None False) \<noteq> ''chatgpt''
   \<and> init (new_Automator ''gemini'' True None None None False) empty_env
       \<lparr>tape = start_replies @ [Done], trace = []\<rparr>
     = (Inl (UnknownProvider ''gemini''),
        (new_Automator ''gemini'' True None None None False)
          \<lparr>browserManager := Some started_manager\<rparr>,
        \<lparr>tape = [], trace = start_trace @ [GrantPermissions]\<rparr>)
   \<and> init (new_Automator ''gemini'' True None None None False) empty_env
       \<lparr>tape = start_replies @ [Fails TimeoutError], trace = []\<rparr>
     = (Inl (Driver TimeoutError),
        (new_Automator ''gemini'' True None None None False)
          \<lparr>browserManager := Some started_manager\<rparr>,
        \<lparr>tape = [], trace = start_trace @ [GrantPermissions]\<rparr>)
   \<and> init (new_Automator ''gemini'' True None None None False) empty_env
       \<lparr>tape = [Done, Fails TimeoutError], trace = []\<rparr>
     = (Inl LaunchFailed,
        (new_Automator ''gemini'' True None None None False)
          \<lparr>browserManager := Some (new_BrowserManager ''profile'')\<rparr>,
        \<lparr>tape = [],
         trace = [EnsureDirSync ''profile'', LaunchPersistentContext ''profile'' True]\<rparr>)"
proof -
  let ?a = "new_Automator ''gemini'' True None None None False"
  let ?w1 = "\<lambda>t. \<lparr>tape = t, trace = start_trace\<rparr>"
  let ?w2 = "\<lparr>tape = [], trace = start_trace @ [GrantPermissions]\<rparr>"
  let ?wl = "\<lparr>tape = [],
              trace = [EnsureDirSync ''profile'', LaunchPersistentContext ''profile'' True]\<rparr>"
  have unknown: "providerName ?a \<noteq> ''chatgpt''" by (simp add: new_Automator_def)
  have name: "providerName ?a = ''gemini''" by (simp add: new_Automator_def)
  have s: "start (new_BrowserManager (profile_dir empty_env)) (headless ?a) (sessionPath ?a)
             \<lparr>tape = start_replies @ t, trace = []\<rparr>
           = (Inr Page, started_manager, ?w1 t)" for t
    using start_run [of t] by (simp add: empty_env_def new_Automator_def)
  have sl: "start (new_BrowserManager (profile_dir empty_env)) (headless ?a) (sessionPath ?a)
             \<lparr>tape = [Done, Fails TimeoutError], trace = []\<rparr>
           = (Inl LaunchFailed, new_BrowserManager ''profile'', ?wl)"
    by (simp add: start_def io_defs empty_env_def new_Automator_def new_BrowserManager_def)
  have g: "void_call GrantPermissions (?w1 [Done]) = (Inr (), ?w2)"
    "void_call GrantPermissions (?w1 [Fails TimeoutError]) = (Inl (Driver TimeoutError), ?w2)"
    by (simp_all add: io_defs)
  have "init ?a empty_env \<lparr>tape = start_replies @ [Done], trace = []\<rparr>
          = (Inl (UnknownProvider (providerName ?a)),
             ?a\<lparr>browserManager := Some started_manager\<rparr>, ?w2)"
    using init_unknown_provider [OF unknown s [of "[Done]"]] by (simp add: g)
  moreover have "init ?a empty_env \<lparr>tape = start_replies @ [Fails TimeoutError], trace = []\<rparr>
          = (Inl (Driver TimeoutError), ?a\<lparr>browserManager := Some started_manager\<rparr>, ?w2)"
    using init_unknown_provider [OF unknown s [of "[Fails TimeoutError]"]] by (simp add: g)
  moreover have "init ?a empty_env \<lparr>tape = [Done, Fails TimeoutError], trace = []\<rparr>
          = (Inl LaunchFailed, ?a\<lparr>browserManager := Some (new_BrowserManager ''profile'')\<rparr>, ?wl)"
    using init_unknown_provider [OF unknown sl] by simp
  ultimately show ?thesis using unknown by (simp add: name)
qed




section \<open>Prompt chains\<close>

lemma sendPrompt_exchange:
  assumes "tape w = exchange answer @ rest"
  shows "sendPrompt p prompt w =
           (Inr answer, \<lparr>tape = rest, trace = trace w @ exchange_trace p prompt\<rparr>)"
  using assms
  by (simp add: sendPrompt_def handleDialogs_def submit_prompt_def await_completion_def
      extract_response_def io_defs exchange_def exchange_trace_def submission_replies_def
      submission_trace_def)










lemma processPrompt_ready: "processPrompt ready_automator prompt = sendPrompt default_provider prompt"
  by (simp add: processPrompt_def ready_automator_def)


text \<open>
  Claim C1, on the code. The element \<^verbatim>\<open>{{}} is tasty\<close> contains the token \<^verbatim>\<open>{}\<close> (inside its
  \<^verbatim>\<open>{{}}\<close>), so the first branch replaces that inner token: after the response \<^verbatim>\<open>mango\<close>
  the prompt sent is \<^verbatim>\<open>{mango} is tasty\<close>, not \<^verbatim>\<open>mango is tasty\<close>.
\<close>

theorem chain_double_brace:
  "render (Literal ''{{}} is tasty'') ''mango'' = ''{mango} is tasty''
   \<and> processChain ready_automator [Literal ''Name a fruit.'', Literal ''{{}} is tasty'']
       \<lparr>tape = exchange ''mango'' @ exchange ''Indeed.'', trace = []\<rparr>
     = (Inr [''mango'', ''Indeed.''],
        \<lparr>tape = [],
         trace = exchange_trace default_provider ''Name a fruit.''
                 @ exchange_trace default_provider ''{mango} is tasty''\<rparr>)"
proof -
  let ?p = default_provider
  let ?w0 = "\<lparr>tape = exchange ''mango'' @ exchange ''Indeed.'', trace = []\<rparr>"
  let ?w1 = "\<lparr>tape = exchange ''Indeed.'', trace = exchange_trace ?p ''Name a fruit.''\<rparr>"
  let ?w2 = "\<lparr>tape = [],
              trace = exchange_trace ?p ''Name a fruit.''
                      @ exchange_trace ?p ''{mango} is tasty''\<rparr>"
  have r1: "render (Literal ''Name a fruit.'') [] = ''Name a fruit.''"
    by (simp add: render_def js_includes_def)
  have r2: "render (Literal ''{{}} is tasty'') ''mango'' = ''{mango} is tasty''"
    by (simp add: render_def js_includes_def js_replace_def)
  have s1: "sendPrompt ?p ''Name a fruit.'' ?w0 = (Inr ''mango'', ?w1)"
    using sendPrompt_exchange [of ?w0 "''mango''" "exchange ''Indeed.''" ?p "''Name a fruit.''"]
    by simp
  have s2: "sendPrompt ?p ''{mango} is tasty'' ?w1 = (Inr ''Indeed.'', ?w2)"
    using sendPrompt_exchange [of ?w1 "''Indeed.''" "[]" ?p "''{mango} is tasty''"]
    by simp
  have "processChain ready_automator [Literal ''Name a fruit.'', Literal ''{{}} is tasty''] ?w0
        = (Inr [''mango'', ''Indeed.''], ?w2)"
    by (simp add: processChain_def chain_loop.simps processPrompt_ready r1 r2 s1 s2)
  with r2 show ?thesis by simp
qed

end
